theory Spec2Isabelle
  imports Main "HOL-Library.Code_Target_Nat"
begin

section \<open>The tabbed interactive form (form-component.ts)\<close>

text \<open>
  A shallow embedding of the class \<open>InteractiveForm\<close>. The object's fields are a record
  that every method takes and returns; a JavaScript \<open>TypeError\<close> (a property read on
  \<open>undefined\<close>) is the left summand of a sum type. The calls of the two host callbacks,
  \<open>done\<close> and \<open>tui.requestRender\<close>, are logged in the record.

  What the model takes for granted: the host's functions return (they raise no error of
  their own); the \<open>focused\<close> property of an \<open>Input\<close> is a flag that its text does not
  depend on; a width is a natural number.
\<close>

subsection \<open>JavaScript strings and the built-ins the component calls\<close>

text \<open>
  A JavaScript string is a sequence of UTF-16 code units, here natural numbers.
  \<open>js\<close> turns an ASCII literal into such a sequence.
\<close>

type_synonym jsstring = "nat list"

definition js :: "string \<Rightarrow> jsstring" where
  "js cs = map of_char cs"

text \<open>The characters that \<open>String.prototype.trim\<close> and \<open>parseInt\<close> skip
  (ECMAScript WhiteSpace and LineTerminator).\<close>

definition isWhiteSpace :: "nat \<Rightarrow> bool" where
  "isWhiteSpace c =
     (c = 0x09 \<or> c = 0x0A \<or> c = 0x0B \<or> c = 0x0C \<or> c = 0x0D \<or> c = 0x20 \<or> c = 0xA0
      \<or> c = 0x1680 \<or> (0x2000 \<le> c \<and> c \<le> 0x200A) \<or> c = 0x2028 \<or> c = 0x2029
      \<or> c = 0x202F \<or> c = 0x205F \<or> c = 0x3000 \<or> c = 0xFEFF)"

definition trim :: "jsstring \<Rightarrow> jsstring" where
  "trim s = rev (dropWhile isWhiteSpace (rev (dropWhile isWhiteSpace s)))"

definition isDigit :: "nat \<Rightarrow> bool" where
  "isDigit c = (0x30 \<le> c \<and> c \<le> 0x39)"

definition digitsValue :: "nat list \<Rightarrow> nat" where
  "digitsValue ds = foldl (\<lambda>a d. 10 * a + (d - 0x30)) 0 ds"

text \<open>
  \<open>parseInt(data, 10)\<close>: leading white space is skipped, one sign is read, then the
  longest run of decimal digits; \<open>None\<close> is \<open>NaN\<close>. The source compares the result
  with \<open>1\<close> and with an array length only, where a double and the exact integer agree.
\<close>

definition parseInt :: "jsstring \<Rightarrow> int option" where
  "parseInt s =
     (let t = dropWhile isWhiteSpace s;
          neg = (case t of [] \<Rightarrow> False | c # r \<Rightarrow> c = 0x2D);
          u = (case t of [] \<Rightarrow> [] | c # r \<Rightarrow> if c = 0x2D \<or> c = 0x2B then r else t);
          ds = takeWhile isDigit u
      in case ds of
           [] \<Rightarrow> None
         | d # r \<Rightarrow> Some (if neg then - int (digitsValue ds) else int (digitsValue ds)))"

text \<open>\<open>xs[i]\<close> on an array: \<open>undefined\<close> outside the bounds.\<close>

definition nth_opt :: "'a list \<Rightarrow> int \<Rightarrow> 'a option" where
  "nth_opt xs i = (if 0 \<le> i \<and> i < int (length xs) then Some (xs ! nat i) else None)"

text \<open>\<open>xs.indexOf(v)\<close>: the first position of \<open>v\<close>, or \<open>-1\<close>.\<close>

fun indexOf :: "'a list \<Rightarrow> 'a \<Rightarrow> int" where
  "indexOf [] v = - 1"
| "indexOf (x # xs) v =
     (if x = v then 0 else (let i = indexOf xs v in if i < 0 then - 1 else i + 1))"

text \<open>\<open>xs.splice(idx, 1)\<close> for \<open>idx \<ge> 0\<close>: the element at \<open>idx\<close> is removed.\<close>

definition splice1 :: "int \<Rightarrow> 'a list \<Rightarrow> 'a list" where
  "splice1 idx xs = take (nat idx) xs @ drop (Suc (nat idx)) xs"

text \<open>The truth value of a string (not empty) and of an optional string (defined and
  not empty).\<close>

definition truthyStr :: "jsstring \<Rightarrow> bool" where
  "truthyStr t = (case t of [] \<Rightarrow> False | c # cs \<Rightarrow> True)"

definition truthy :: "jsstring option \<Rightarrow> bool" where
  "truthy t = (case t of None \<Rightarrow> False | Some x \<Rightarrow> truthyStr x)"

subsection \<open>Plain objects keyed by tab id\<close>

text \<open>
  The fields \<open>responses\<close>, \<open>optionCursor\<close>, \<open>customInputMode\<close> and \<open>customInputs\<close> are
  objects created by \<open>{}\<close>. Such an object is the map from a key to what a read of
  that key gives. One key is not an ordinary one: a read of \<open>__proto__\<close> gives the
  prototype of the object, at first \<open>Object.prototype\<close>; an assignment of an object to
  it replaces the prototype, so that a read gives the assigned object as for any other
  key; an assignment of a number or a boolean to it does nothing. Every other tab id is
  taken for an ordinary key, which an assignment makes a property of the object itself.
\<close>

definition protoKey :: jsstring where
  "protoKey = js ''__proto__''"

text \<open>\<open>obj[k] = v\<close> for a number or a boolean \<open>v\<close>.\<close>

definition assignPrim :: "jsstring \<Rightarrow> 'v \<Rightarrow> (jsstring \<rightharpoonup> 'v) \<Rightarrow> (jsstring \<rightharpoonup> 'v)" where
  "assignPrim k v m = (if k = protoKey then m else m(k \<mapsto> v))"

text \<open>
  The object \<open>{}\<close> of \<open>customInputMode\<close>, whose values are used as truth values only:
  \<open>Object.prototype\<close>, which a read of \<open>__proto__\<close> gives, is true as a condition.
\<close>

definition emptyModes :: "jsstring \<rightharpoonup> bool" where
  "emptyModes = [protoKey \<mapsto> True]"

text \<open>
  The object \<open>{}\<close> of \<open>optionCursor\<close>: what a read of \<open>__proto__\<close> gives is no number, and
  the key has no number in the map.
\<close>

definition emptyCursors :: "jsstring \<rightharpoonup> int" where
  "emptyCursors = Map.empty"

subsection \<open>Data model (index.ts: TabConfig, TabResponse, FormResult)\<close>

datatype selectionType = single | multiple

record optionSpec =
  value_opt :: jsstring
  label_opt :: jsstring
  description :: "jsstring option"

record tabConfig =
  id_tab :: jsstring
  label_tab :: jsstring
  question :: jsstring
  options :: "optionSpec list"
  selectionType :: selectionType
  allowCustom :: bool

record tabResponse =
  selected :: "jsstring list"
  customText :: "jsstring option"

text \<open>The argument of the completion callback: \<open>None\<close> is \<open>null\<close> (cancellation).\<close>

datatype formResult = FormResult "jsstring \<rightharpoonup> tabResponse"

datatype error = TypeError

subsection \<open>The host: key matching, the Input component, theme and text utilities\<close>

text \<open>
  These come from the packages \<open>pi-tui\<close> and \<open>pi-coding-agent\<close>, which are not part of the
  repository: they are parameters of the model. An \<open>Input\<close> component is its text state,
  of an arbitrary type \<open>'b\<close>, and its \<open>focused\<close> property, a plain flag.

  The component calls the method \<open>getText\<close> of an \<open>Input\<close> (line 110) without a guard.
  \<open>inputGetText\<close> is that method when the component has one, and \<open>None\<close> when it has
  none: then the call raises a \<open>TypeError\<close>. The \<open>Input\<close> of \<open>pi-tui\<close> has the methods
  \<open>getValue\<close>, \<open>setValue\<close>, \<open>handleInput\<close>, \<open>render\<close> and \<open>invalidate\<close>, and no \<open>getText\<close>.
\<close>

datatype key = Escape | Enter | Tab | ShiftTab | Right | Left | Up | Down | Space

record 'b input =
  buffer :: 'b
  focusedI :: bool

record 'b host =
  matchesKey :: "jsstring \<Rightarrow> key \<Rightarrow> bool"
  inputNew :: 'b
  inputHandle :: "jsstring \<Rightarrow> 'b \<Rightarrow> 'b"
  inputGetText :: "('b \<Rightarrow> jsstring) option"
  inputRender :: "'b input \<Rightarrow> int \<Rightarrow> jsstring list"
  fg :: "jsstring \<Rightarrow> jsstring \<Rightarrow> jsstring"
  bg :: "jsstring \<Rightarrow> jsstring \<Rightarrow> jsstring"
  bold :: "jsstring \<Rightarrow> jsstring"
  truncateToWidth :: "jsstring \<Rightarrow> nat \<Rightarrow> jsstring"

subsection \<open>The fields of the class\<close>

record 'b form =
  tabs :: "tabConfig list"
  focused :: bool
  currentTabIndex :: int
  responses :: "jsstring \<rightharpoonup> tabResponse"
  optionCursor :: "jsstring \<rightharpoonup> int"
  customInputMode :: "jsstring \<rightharpoonup> bool"
  customInputs :: "jsstring \<rightharpoonup> 'b input"
  cachedWidth :: "nat option"
  cachedLines :: "jsstring list option"
  doneLog :: "formResult option list"
  renderRequests :: nat

text \<open>\<open>this.done(r)\<close> and \<open>this.tui.requestRender()\<close>: the call is recorded.\<close>

definition doneCall :: "formResult option \<Rightarrow> 'b form \<Rightarrow> 'b form" where
  "doneCall r s = s\<lparr>doneLog := doneLog s @ [r]\<rparr>"

definition requestRender :: "'b form \<Rightarrow> 'b form" where
  "requestRender s = s\<lparr>renderRequests := Suc (renderRequests s)\<rparr>"

definition invalidate :: "'b form \<Rightarrow> 'b form" where
  "invalidate s = s\<lparr>cachedWidth := None, cachedLines := None\<rparr>"

text \<open>The loop of the constructor (lines 76-81), one tab after the other. The response
  and the input component are objects, the cursor and the mode are a number and a
  boolean.\<close>

definition initTab :: "'b host \<Rightarrow> 'b form \<Rightarrow> tabConfig \<Rightarrow> 'b form" where
  "initTab h s tab =
     s\<lparr>responses := (responses s)(id_tab tab \<mapsto> \<lparr>selected = [], customText = None\<rparr>),
       optionCursor := assignPrim (id_tab tab) 0 (optionCursor s),
       customInputMode := assignPrim (id_tab tab) False (customInputMode s),
       customInputs := (customInputs s)(id_tab tab \<mapsto> \<lparr>buffer = inputNew h, focusedI = False\<rparr>)\<rparr>"

definition init :: "'b host \<Rightarrow> tabConfig list \<Rightarrow> 'b form" where
  "init h ts =
     foldl (initTab h)
       \<lparr>tabs = ts, focused = False, currentTabIndex = 0, responses = Map.empty,
        optionCursor = emptyCursors, customInputMode = emptyModes, customInputs = Map.empty,
        cachedWidth = None, cachedLines = None, doneLog = [], renderRequests = 0\<rparr>
       ts"

text \<open>The listener that the constructor adds to the abort signal (lines 84-88).\<close>

definition abort :: "'b form \<Rightarrow> 'b form" where
  "abort s = doneCall None s"

text \<open>The setter of \<open>focused\<close> (lines 51-58).\<close>

definition setFocused :: "bool \<Rightarrow> 'b form \<Rightarrow> 'b form" where
  "setFocused v s =
     (let s1 = s\<lparr>focused := v\<rparr> in
      case nth_opt (tabs s1) (currentTabIndex s1) of
        None \<Rightarrow> s1
      | Some tab \<Rightarrow>
          (let tabId = id_tab tab in
           if truthyStr tabId \<and> customInputMode s1 tabId = Some True then
             (case customInputs s1 tabId of
                None \<Rightarrow> s1
              | Some inp \<Rightarrow> s1\<lparr>customInputs := (customInputs s1)(tabId \<mapsto> inp\<lparr>focusedI := v\<rparr>)\<rparr>)
           else s1))"

subsection \<open>handleInput (lines 91-245)\<close>

definition optionCount :: "tabConfig \<Rightarrow> int" where
  "optionCount tab = int (length (options tab)) + (if allowCustom tab then 1 else 0)"

text \<open>Lines 100-127: the keys while the current tab captures free text. Line 110 reads
  the text with \<open>getText\<close>; line 123 calls \<open>handleInput\<close> behind \<open>?.\<close>, and \<open>inputHandle\<close> is
  the identity for a component without that method.\<close>

definition customModeInput :: "'b host \<Rightarrow> jsstring \<Rightarrow> jsstring \<Rightarrow> 'b form \<Rightarrow> error + 'b form" where
  "customModeInput h data tabId s =
     (if matchesKey h data Escape then
        Inr (requestRender (invalidate
          (s\<lparr>customInputMode := assignPrim tabId False (customInputMode s)\<rparr>)))
      else
        (case customInputs s tabId of
           None \<Rightarrow> Inl TypeError
         | Some inp \<Rightarrow>
             if matchesKey h data Enter then
               (case inputGetText h of
                  None \<Rightarrow> Inl TypeError
                | Some getText \<Rightarrow>
                    (let inputText = trim (getText (buffer inp));
                         s1 = (if truthyStr inputText then
                                 s\<lparr>responses := (responses s)(tabId \<mapsto>
                                      \<lparr>selected = [], customText = Some inputText\<rparr>)\<rparr>
                               else s)
                     in Inr (requestRender (invalidate
                          (s1\<lparr>customInputMode := assignPrim tabId False (customInputMode s1)\<rparr>)))))
             else
               Inr (requestRender (invalidate
                 (s\<lparr>customInputs := (customInputs s)(tabId \<mapsto>
                      inp\<lparr>buffer := inputHandle h data (buffer inp)\<rparr>)\<rparr>)))))"

text \<open>Lines 181-182 and 220-221: custom input mode is switched on.\<close>

definition enterCustomMode :: "jsstring \<Rightarrow> 'b form \<Rightarrow> error + 'b form" where
  "enterCustomMode tabId s =
     (let s1 = s\<lparr>customInputMode := (customInputMode s)(tabId \<mapsto> True)\<rparr> in
      case customInputs s1 tabId of
        None \<Rightarrow> Inl TypeError
      | Some inp \<Rightarrow> Inr (s1\<lparr>customInputs := (customInputs s1)(tabId \<mapsto> inp\<lparr>focusedI := focused s1\<rparr>)\<rparr>))"

text \<open>Lines 192-206 and 225-237, the same text twice: the response of the tab takes
  the option, replacing the selection or toggling the value in it.\<close>

definition applyOption :: "tabConfig \<Rightarrow> optionSpec \<Rightarrow> 'b form \<Rightarrow> error + 'b form" where
  "applyOption currentTab option s =
     (case responses s (id_tab currentTab) of
        None \<Rightarrow> Inl TypeError
      | Some response \<Rightarrow>
          (let sel =
                 (if selectionType currentTab = single then [value_opt option]
                  else (let idx = indexOf (selected response) (value_opt option) in
                        if idx \<ge> 0 then splice1 idx (selected response)
                        else selected response @ [value_opt option]))
           in Inr (s\<lparr>responses := (responses s)(id_tab currentTab \<mapsto>
                        response\<lparr>selected := sel, customText := None\<rparr>)\<rparr>)))"

text \<open>Lines 176-211: Enter or Space on the slot under the cursor.\<close>

definition selectAtCursor :: "tabConfig \<Rightarrow> int \<Rightarrow> 'b form \<Rightarrow> error + 'b form" where
  "selectAtCursor currentTab cursor s =
     (if allowCustom currentTab \<and> cursor = int (length (options currentTab)) then
        (case enterCustomMode (id_tab currentTab) s of
           Inl e \<Rightarrow> Inl e
         | Inr s1 \<Rightarrow> Inr (requestRender (invalidate s1)))
      else
        (case nth_opt (options currentTab) cursor of
           None \<Rightarrow> Inr s
         | Some option \<Rightarrow>
            (case applyOption currentTab option s of
               Inl e \<Rightarrow> Inl e
             | Inr s1 \<Rightarrow> Inr (requestRender (invalidate s1)))))"

text \<open>Lines 213-244: the number keys.\<close>

definition quickSelect :: "tabConfig \<Rightarrow> jsstring \<Rightarrow> 'b form \<Rightarrow> error + 'b form" where
  "quickSelect currentTab data s =
     (case parseInt data of
        None \<Rightarrow> Inr s
      | Some numKey \<Rightarrow>
          if numKey \<ge> 1 \<and> numKey \<le> optionCount currentTab then
            (let optionIndex = numKey - 1;
                 r = (if allowCustom currentTab \<and> optionIndex = int (length (options currentTab))
                      then enterCustomMode (id_tab currentTab) s
                      else (case nth_opt (options currentTab) optionIndex of
                              None \<Rightarrow> Inr s
                            | Some option \<Rightarrow> applyOption currentTab option s))
             in case r of
                  Inl e \<Rightarrow> Inl e
                | Inr s1 \<Rightarrow>
                    Inr (requestRender (invalidate
                      (s1\<lparr>optionCursor := (optionCursor s1)(id_tab currentTab \<mapsto> optionIndex)\<rparr>))))
          else Inr s)"

text \<open>The method itself. Its first two lines (92-93) return when no tab is current,
  which is the case on the summary, where the tab index is the number of tabs.

  The assignments to \<open>optionCursor\<close> (lines 163, 169 and 241) and of \<open>true\<close> to
  \<open>customInputMode\<close> (lines 181 and 220) are written as updates of the map: they are past
  the branch of custom input mode, which a tab with the id \<open>__proto__\<close> never leaves (lemma
  \<open>proto_tab_in_custom_mode\<close> below), so they are not reached for that key.\<close>

definition handleInput :: "'b host \<Rightarrow> jsstring \<Rightarrow> 'b form \<Rightarrow> error + 'b form" where
  "handleInput h data s =
     (case nth_opt (tabs s) (currentTabIndex s) of
        None \<Rightarrow> Inr s
      | Some currentTab \<Rightarrow>
          (let tabId = id_tab currentTab;
               isCustomMode = (customInputMode s tabId = Some True);
               isSubmitTab = (currentTabIndex s = int (length (tabs s)))
           in
           if isCustomMode \<and> \<not> isSubmitTab then customModeInput h data tabId s
           else if matchesKey h data Escape then Inr (doneCall None s)
           else if matchesKey h data Tab \<or> matchesKey h data Right then
             Inr (requestRender (invalidate
               (s\<lparr>currentTabIndex := min (currentTabIndex s + 1) (int (length (tabs s)))\<rparr>)))
           else if matchesKey h data ShiftTab \<or> matchesKey h data Left then
             Inr (requestRender (invalidate
               (s\<lparr>currentTabIndex := max (currentTabIndex s - 1) 0\<rparr>)))
           else if isSubmitTab then
             (if matchesKey h data Enter then Inr (doneCall (Some (FormResult (responses s))) s)
              else Inr s)
           else
             (let cursor = (case optionCursor s tabId of None \<Rightarrow> 0 | Some c \<Rightarrow> c) in
              if matchesKey h data Up then
                Inr (requestRender (invalidate
                  (s\<lparr>optionCursor := (optionCursor s)(tabId \<mapsto> max 0 (cursor - 1))\<rparr>)))
              else if matchesKey h data Down then
                Inr (requestRender (invalidate
                  (s\<lparr>optionCursor := (optionCursor s)(tabId \<mapsto>
                       min (optionCount currentTab - 1) (cursor + 1))\<rparr>)))
              else if matchesKey h data Enter \<or> matchesKey h data Space then
                selectAtCursor currentTab cursor s
              else quickSelect currentTab data s)))"

subsection \<open>render (lines 247-376), renderTabHeader and hasResponse (lines 378-424)\<close>

text \<open>A number in a template string: its decimal digits.\<close>

fun decimal :: "nat \<Rightarrow> jsstring" where
  "decimal n = (if n < 10 then [0x30 + n] else decimal (n div 10) @ [0x30 + n mod 10])"

text \<open>\<open>parts.join(sep)\<close>.\<close>

fun join :: "jsstring \<Rightarrow> jsstring list \<Rightarrow> jsstring" where
  "join sep [] = []"
| "join sep [x] = x"
| "join sep (x # y # ys) = x @ sep @ join sep (y # ys)"

definition hasResponse :: "'b form \<Rightarrow> jsstring \<Rightarrow> bool" where
  "hasResponse s tabId =
     (case responses s tabId of
        None \<Rightarrow> False
      | Some response \<Rightarrow> length (selected response) > 0 \<or> truthy (customText response))"

definition tabStr :: "'b host \<Rightarrow> 'b form \<Rightarrow> jsstring list \<Rightarrow> nat \<Rightarrow> jsstring" where
  "tabStr h s allTabs i =
     (let label = allTabs ! i;
          isActive = (int i = currentTabIndex s);
          hasResp = (i < length (tabs s) \<and> hasResponse s (id_tab (tabs s ! i)))
      in if isActive then bg h (js ''selectedBg'') (fg h (js ''accent'') (js '' '' @ label @ js '' ''))
         else if i = length (tabs s) then
           js '' '' @ fg h (js ''success'') [0x2713] @ js '' '' @ label @ js '' ''
         else if hasResp then
           js '' '' @ fg h (js ''success'') [0x2713] @ js '' '' @ fg h (js ''muted'') label @ js '' ''
         else
           js '' '' @ fg h (js ''dim'') [0x25CB] @ js '' '' @ fg h (js ''muted'') label @ js '' '')"

definition renderTabHeader :: "'b host \<Rightarrow> 'b form \<Rightarrow> nat \<Rightarrow> jsstring" where
  "renderTabHeader h s width =
     (let allTabs = map label_tab (tabs s) @ [js ''Submit''] in
      concat
        ([if currentTabIndex s > 0 then fg h (js ''muted'') ([0x2190] @ js '' '') else js ''  '']
         @ concat (map (\<lambda>i. tabStr h s allTabs i
                              # (if i < length allTabs - 1 then [fg h (js ''border'') [0x2502]] else []))
                      [0 ..< length allTabs])
         @ [if currentTabIndex s < int (length (tabs s)) then fg h (js ''muted'') (js '' '' @ [0x2192])
            else js ''  '']))"

text \<open>Lines 274-290: the line of one tab in the summary.\<close>

definition summaryLine :: "'b host \<Rightarrow> 'b form \<Rightarrow> nat \<Rightarrow> tabConfig \<Rightarrow> jsstring" where
  "summaryLine h s width tab =
     (let response = responses s (id_tab tab);
          answer =
            (case response of
               None \<Rightarrow> js ''(no selection)''
             | Some r \<Rightarrow>
                 if truthy (customText r) then the (customText r)
                 else if length (selected r) > 0 then
                   join (js '', '')
                     (map (\<lambda>val. case find (\<lambda>o'. value_opt o' = val) (options tab) of
                                    Some opt \<Rightarrow> label_opt opt
                                  | None \<Rightarrow> val)
                          (selected r))
                 else js ''(no selection)'')
      in truncateToWidth h
           (js ''  '' @ fg h (js ''muted'') (label_tab tab @ js '':'') @ js '' '' @ answer) width)"

definition checkbox :: "'b host \<Rightarrow> tabConfig \<Rightarrow> bool \<Rightarrow> jsstring" where
  "checkbox h currentTab isOn =
     (if selectionType currentTab = single then
        (if isOn then fg h (js ''success'') (js ''('' @ [0x2022] @ js '')'')
         else fg h (js ''muted'') (js ''( )''))
      else
        (if isOn then fg h (js ''success'') (js ''['' @ [0x2713] @ js '']'')
         else fg h (js ''muted'') (js ''[ ]'')))"

text \<open>Lines 307-328: the lines of one option of the current tab.\<close>

definition optionLines ::
  "'b host \<Rightarrow> 'b form \<Rightarrow> nat \<Rightarrow> tabConfig \<Rightarrow> nat \<Rightarrow> jsstring list" where
  "optionLines h s width currentTab idx =
     (let opt = options currentTab ! idx;
          response = responses s (id_tab currentTab);
          cursor = (case optionCursor s (id_tab currentTab) of None \<Rightarrow> 0 | Some c \<Rightarrow> c);
          isCustomMode = (customInputMode s (id_tab currentTab) = Some True);
          isSelected = (case response of None \<Rightarrow> False
                        | Some r \<Rightarrow> value_opt opt \<in> set (selected r));
          isCursor = (int idx = cursor \<and> \<not> isCustomMode);
          prefix = (if isCursor then fg h (js ''accent'') ([0x203A] @ js '' '') else js ''  '');
          num = fg h (js ''dim'') (decimal (idx + 1) @ js ''.'');
          label = (if isCursor then fg h (js ''accent'') (label_opt opt) else label_opt opt)
      in truncateToWidth h
           (prefix @ num @ js '' '' @ checkbox h currentTab isSelected @ js '' '' @ label) width
         # (if truthy (description opt) then
              [truncateToWidth h
                 (js ''       '' @ fg h (js ''muted'') (the (description opt))) width]
            else []))"

text \<open>Lines 331-360: the custom entry, with the input field while it captures text.\<close>

definition customLines ::
  "'b host \<Rightarrow> 'b form \<Rightarrow> nat \<Rightarrow> tabConfig \<Rightarrow> error + jsstring list" where
  "customLines h s width currentTab =
     (let response = responses s (id_tab currentTab);
          cursor = (case optionCursor s (id_tab currentTab) of None \<Rightarrow> 0 | Some c \<Rightarrow> c);
          isCustomMode = (customInputMode s (id_tab currentTab) = Some True);
          customIdx = length (options currentTab);
          isCursor = (int customIdx = cursor \<and> \<not> isCustomMode);
          hasCustom = (case response of None \<Rightarrow> False | Some r \<Rightarrow> truthy (customText r));
          prefix = (if isCursor then fg h (js ''accent'') ([0x203A] @ js '' '') else js ''  '');
          num = fg h (js ''dim'') (decimal (customIdx + 1) @ js ''.'');
          label = (if isCursor then fg h (js ''accent'') (js ''Type something'')
                   else js ''Type something'');
          line = truncateToWidth h
                   (prefix @ num @ js '' '' @ checkbox h currentTab hasCustom @ js '' '' @ label) width
      in if isCustomMode then
           (case customInputs s (id_tab currentTab) of
              None \<Rightarrow> Inl TypeError
            | Some inp \<Rightarrow>
                Inr (line # [] # map (\<lambda>l. js ''    '' @ l) (inputRender h inp (int width - 4))
                     @ [truncateToWidth h
                          (js ''    '' @ fg h (js ''dim'')
                             (js ''Enter to confirm '' @ [0x2022] @ js '' Esc to cancel'')) width]))
         else if hasCustom then
           Inr [line,
                truncateToWidth h
                  (js ''       '' @ fg h (js ''muted'')
                     (js [CHR 0x22] @ the (customText (the response)) @ js [CHR 0x22])) width]
         else Inr [line])"

text \<open>Lines 266-362: the content area.\<close>

definition contentLines :: "'b host \<Rightarrow> 'b form \<Rightarrow> nat \<Rightarrow> error + jsstring list" where
  "contentLines h s width =
     (if currentTabIndex s = int (length (tabs s)) then
        Inr ([[], fg h (js ''accent'') (bold h (js ''  Summary - Review your responses:'')), []]
             @ map (summaryLine h s width) (tabs s)
             @ [[], fg h (js ''success'') (js ''  Press Enter to submit'')])
      else
        (case nth_opt (tabs s) (currentTabIndex s) of
           None \<Rightarrow> Inr []
         | Some currentTab \<Rightarrow>
             (let top = [[],
                         truncateToWidth h
                           (js ''  '' @ fg h (js ''accent'') (bold h (question currentTab))) width,
                         []]
                        @ concat (map (optionLines h s width currentTab)
                                      [0 ..< length (options currentTab)])
              in if allowCustom currentTab then
                   (case customLines h s width currentTab of
                      Inl e \<Rightarrow> Inl e
                    | Inr ls \<Rightarrow> Inr (top @ ls))
                 else Inr top)))"

definition helpLine :: jsstring where
  "helpLine =
     js ''  '' @ [0x2190, 0x2192] @ js ''/Tab: navigate tabs '' @ [0x2022] @ js '' ''
     @ [0x2191, 0x2193] @ js '': select option '' @ [0x2022] @ js '' Enter/Space: toggle ''
     @ [0x2022] @ js '' Esc: cancel''"

text \<open>The width is a number of columns, a natural number here: \<open>repeat\<close> raises a
  RangeError on a negative count, and no width is \<open>NaN\<close>.\<close>

definition render :: "'b host \<Rightarrow> nat \<Rightarrow> 'b form \<Rightarrow> error + (jsstring list \<times> 'b form)" where
  "render h width s =
     (if cachedLines s \<noteq> None \<and> cachedWidth s = Some width then Inr (the (cachedLines s), s)
      else
        (case contentLines h s width of
           Inl e \<Rightarrow> Inl e
         | Inr content \<Rightarrow>
             (let lines =
                    [fg h (js ''border'') (replicate width 0x2500),
                     renderTabHeader h s width,
                     fg h (js ''border'') (replicate width 0x2500)]
                    @ content
                    @ [[], fg h (js ''dim'') helpLine, fg h (js ''border'') (replicate width 0x2500)]
              in Inr (lines, s\<lparr>cachedWidth := Some width, cachedLines := Some lines\<rparr>))))"

subsection \<open>What the host may do with a form, and runs\<close>

datatype event =
  HandleInput jsstring | Abort | SetFocused bool | Render nat | Invalidate

definition step :: "'b host \<Rightarrow> event \<Rightarrow> 'b form \<Rightarrow> error + 'b form" where
  "step h e s =
     (case e of
        HandleInput data \<Rightarrow> handleInput h data s
      | Abort \<Rightarrow> Inr (abort s)
      | SetFocused v \<Rightarrow> Inr (setFocused v s)
      | Render width \<Rightarrow> (case render h width s of Inl err \<Rightarrow> Inl err | Inr (ls, s1) \<Rightarrow> Inr s1)
      | Invalidate \<Rightarrow> Inr (invalidate s))"

text \<open>A run stops at the first error, as the exception would stop the caller. The
  exception of line 110 is raised before the form is changed, so a caller that catches it
  goes on from a state that the run without that token reaches as well.\<close>

fun run :: "'b host \<Rightarrow> event list \<Rightarrow> 'b form \<Rightarrow> error + 'b form" where
  "run h [] s = Inr s"
| "run h (e # es) s = (case step h e s of Inl err \<Rightarrow> Inl err | Inr s1 \<Rightarrow> run h es s1)"

subsection \<open>A host to run the form on\<close>

text \<open>
  The key matcher of a legacy terminal (one escape sequence per key), an input component
  that appends what it receives and, like the \<open>Input\<close> of \<open>pi-tui\<close>, has no method
  \<open>getText\<close>, a theme that leaves the text as it is, and truncation to a number of code
  units.
\<close>

definition ttyKey :: "jsstring \<Rightarrow> key \<Rightarrow> bool" where
  "ttyKey data k =
     (data = (case k of
                Escape \<Rightarrow> [0x1B]
              | Enter \<Rightarrow> [0x0D]
              | Tab \<Rightarrow> [0x09]
              | ShiftTab \<Rightarrow> [0x1B, 0x5B, 0x5A]
              | Right \<Rightarrow> [0x1B, 0x5B, 0x43]
              | Left \<Rightarrow> [0x1B, 0x5B, 0x44]
              | Up \<Rightarrow> [0x1B, 0x5B, 0x41]
              | Down \<Rightarrow> [0x1B, 0x5B, 0x42]
              | Space \<Rightarrow> [0x20]))"

definition ttyHost :: "jsstring host" where
  "ttyHost =
     \<lparr>matchesKey = ttyKey, inputNew = [], inputHandle = (\<lambda>data text. text @ data),
      inputGetText = None, inputRender = (\<lambda>inp w. [buffer inp]),
      fg = (\<lambda>c t. t), bg = (\<lambda>c t. t), bold = (\<lambda>t. t),
      truncateToWidth = (\<lambda>t w. take w t)\<rparr>"

definition colorTab :: tabConfig where
  "colorTab =
     \<lparr>id_tab = js ''Color'', label_tab = js ''Color'', question = js ''Which color?'',
      options = [\<lparr>value_opt = js ''red'', label_opt = js ''Red'', description = None\<rparr>,
                 \<lparr>value_opt = js ''blue'', label_opt = js ''Blue'', description = None\<rparr>],
      selectionType = single, allowCustom = False\<rparr>"

definition notesTab :: tabConfig where
  "notesTab =
     \<lparr>id_tab = js ''Notes'', label_tab = js ''Notes'', question = js ''Any notes?'',
      options = [\<lparr>value_opt = js ''a'', label_opt = js ''A'', description = None\<rparr>,
                 \<lparr>value_opt = js ''b'', label_opt = js ''B'', description = None\<rparr>],
      selectionType = multiple, allowCustom = True\<rparr>"

text \<open>A tab whose id is the key \<open>__proto__\<close>.\<close>

definition protoTab :: tabConfig where
  "protoTab =
     \<lparr>id_tab = js ''__proto__'', label_tab = js ''Proto'', question = js ''Which one?'',
      options = [\<lparr>value_opt = js ''a'', label_opt = js ''A'', description = None\<rparr>],
      selectionType = single, allowCustom = False\<rparr>"

text \<open>A tab without any slot: no option and no custom entry.\<close>

definition bareTab :: tabConfig where
  "bareTab =
     \<lparr>id_tab = js ''Bare'', label_tab = js ''Bare'', question = js ''Nothing to choose'',
      options = [], selectionType = single, allowCustom = False\<rparr>"

subsection \<open>Sample sessions\<close>

text \<open>Sequences of events for the host above; an input token is the sequence that
  \<open>ttyKey\<close> gives the key, or the typed text.\<close>

text \<open>The scenario of the specification on the tabs Color and Notes: Enter (red), Tab,
  Enter (a), Down, Enter (b), Tab, Enter.\<close>

definition scenarioKeys :: "event list" where
  "scenarioKeys =
     [HandleInput [0x0D], HandleInput [0x09], HandleInput [0x0D], HandleInput [0x1B, 0x5B, 0x42],
      HandleInput [0x0D], HandleInput [0x09], HandleInput [0x0D]]"

text \<open>On the tab Notes: Down, Down, Enter on the custom entry, the text \<open>x\<close>.\<close>

definition typedKeys :: "event list" where
  "typedKeys =
     [HandleInput [0x1B, 0x5B, 0x42], HandleInput [0x1B, 0x5B, 0x42], HandleInput [0x0D],
      HandleInput (js ''x'')]"

text \<open>The same, then Escape; and the same again, then Enter on the custom entry.\<close>

definition abandonedKeys :: "event list" where
  "abandonedKeys = typedKeys @ [HandleInput [0x1B]]"

definition reenterKeys :: "event list" where
  "reenterKeys = abandonedKeys @ [HandleInput [0x0D]]"

text \<open>On the tab Notes: Enter (a), Down, Down, Enter on the custom entry, two spaces.\<close>

definition blankKeys :: "event list" where
  "blankKeys =
     [HandleInput [0x0D], HandleInput [0x1B, 0x5B, 0x42], HandleInput [0x1B, 0x5B, 0x42],
      HandleInput [0x0D], HandleInput (js ''  '')]"



text \<open>Moves of the cursor: Down, Tab, four times Down, the digits 9 and 2, Up.\<close>

definition cursorKeys :: "event list" where
  "cursorKeys =
     [HandleInput [0x1B, 0x5B, 0x42], HandleInput [0x09], HandleInput [0x1B, 0x5B, 0x42],
      HandleInput [0x1B, 0x5B, 0x42], HandleInput [0x1B, 0x5B, 0x42], HandleInput [0x1B, 0x5B, 0x42],
      HandleInput (js ''9''), HandleInput (js ''2''), HandleInput [0x1B, 0x5B, 0x41]]"

text \<open>Escape twice, with a rendering between them, then the abort signal and a change
  of focus.\<close>

definition cancelKeys :: "event list" where
  "cancelKeys = [HandleInput [0x1B], Render 20, HandleInput [0x1B], Abort, SetFocused True]"

subsection \<open>Predicates on forms and on results\<close>

text \<open>A form is well formed for the tabs \<open>ts\<close> when it holds these tabs, its tab index
  is a tab or the summary, and every tab has its response and its input component.\<close>

definition wellFormed :: "tabConfig list \<Rightarrow> 'b form \<Rightarrow> bool" where
  "wellFormed ts s \<longleftrightarrow>
     tabs s = ts \<and> 0 \<le> currentTabIndex s \<and> currentTabIndex s \<le> int (length ts) \<and>
     (\<forall>t \<in> set ts. responses s (id_tab t) \<noteq> None \<and> customInputs s (id_tab t) \<noteq> None)"

text \<open>\<open>returns r P\<close>: the call returned, in a state with \<open>P\<close>; \<open>holds r P\<close>: if it
  returned, then in a state with \<open>P\<close>.\<close>

definition returns :: "error + 'a \<Rightarrow> ('a \<Rightarrow> bool) \<Rightarrow> bool" where
  "returns r P = (case r of Inl e \<Rightarrow> False | Inr s \<Rightarrow> P s)"

definition holds :: "error + 'a \<Rightarrow> ('a \<Rightarrow> bool) \<Rightarrow> bool" where
  "holds r P = (case r of Inl e \<Rightarrow> True | Inr s \<Rightarrow> P s)"

text \<open>No response has both a custom text and a selection.\<close>

definition exclusive :: "'b form \<Rightarrow> bool" where
  "exclusive s \<longleftrightarrow> (\<forall>k r. responses s k = Some r \<longrightarrow> customText r = None \<or> selected r = [])"

text \<open>Every tab that has a slot, and whose id is an ordinary key, has its cursor on one
  of its slots.\<close>

definition cursorsIn :: "tabConfig list \<Rightarrow> 'b form \<Rightarrow> bool" where
  "cursorsIn ts s \<longleftrightarrow>
     (\<forall>t \<in> set ts. 0 < optionCount t \<longrightarrow> id_tab t \<noteq> protoKey \<longrightarrow>
        (\<exists>c. optionCursor s (id_tab t) = Some c \<and> 0 \<le> c \<and> c < optionCount t))"

text \<open>The events that reach the completion callback at all: an input token, and the
  firing of the abort signal.\<close>

definition isInputOrAbort :: "event \<Rightarrow> bool" where
  "isInputOrAbort e =
     (case e of HandleInput data \<Rightarrow> True | Abort \<Rightarrow> True | SetFocused v \<Rightarrow> False
      | Render width \<Rightarrow> False | Invalidate \<Rightarrow> False)"


text \<open>The token that an event hands to the input component of the tab \<open>k\<close>, if it hands
  one: the tab is current and captures free text, and the token is neither Escape nor
  Enter (lines 100-126).\<close>

definition typedInto :: "'b host \<Rightarrow> event \<Rightarrow> 'b form \<Rightarrow> jsstring \<Rightarrow> jsstring option" where
  "typedInto h e s k =
     (case e of
        HandleInput data \<Rightarrow>
          (case nth_opt (tabs s) (currentTabIndex s) of
             None \<Rightarrow> None
           | Some tab \<Rightarrow>
               if id_tab tab = k \<and> customInputMode s k = Some True
                  \<and> \<not> matchesKey h data Escape \<and> \<not> matchesKey h data Enter
               then Some data else None)
      | Abort \<Rightarrow> None | SetFocused v \<Rightarrow> None | Render width \<Rightarrow> None | Invalidate \<Rightarrow> None)"

text \<open>The input components of two forms hold the same text.\<close>

definition sameBuffers :: "'b form \<Rightarrow> 'b form \<Rightarrow> bool" where
  "sameBuffers s s' \<longleftrightarrow>
     (\<forall>k. map_option buffer (customInputs s' k) = map_option buffer (customInputs s k))"

section \<open>Properties\<close>

subsection \<open>Results, the constructor, well-formed forms\<close>

lemma nth_opt_in_set: "nth_opt xs i = Some x \<Longrightarrow> x \<in> set xs"
  by (auto simp: nth_opt_def split: if_splits)

lemma nth_opt_bounds: "nth_opt xs i = Some x \<Longrightarrow> 0 \<le> i \<and> i < int (length xs)"
  by (auto simp: nth_opt_def split: if_splits)

lemma returns_Inr [simp]: "returns (Inr s) P = P s" by (simp add: returns_def)
lemma returns_Inl [simp]: "returns (Inl e) P = False" by (simp add: returns_def)
lemma returns_then [simp]:
  "returns (case r of Inl e \<Rightarrow> Inl e | Inr s \<Rightarrow> Inr (f s)) P = returns r (\<lambda>s. P (f s))"
  by (cases r) auto
lemma holds_Inr [simp]: "holds (Inr s) P = P s" by (simp add: holds_def)
lemma holds_Inl [simp]: "holds (Inl e) P = True" by (simp add: holds_def)
lemma holds_then [simp]:
  "holds (case r of Inl e \<Rightarrow> Inl e | Inr s \<Rightarrow> Inr (f s)) P = holds r (\<lambda>s. P (f s))"
  by (cases r) auto
lemma holds_mono: "holds r P \<Longrightarrow> (\<And>s. P s \<Longrightarrow> Q s) \<Longrightarrow> holds r Q"
  by (cases r) auto
lemma holds_conj: "holds r P \<Longrightarrow> holds r Q \<Longrightarrow> holds r (\<lambda>s. P s \<and> Q s)"
  by (cases r) auto
lemma returns_imp_holds: "returns r P \<Longrightarrow> holds r P"
  by (cases r) auto
lemma holds_D: "holds r P \<Longrightarrow> r = Inr s \<Longrightarrow> P s"
  by simp

lemma assignPrim_apply:
  "assignPrim k v m k' = (if k' = k \<and> k \<noteq> protoKey then Some v else m k')"
  by (simp add: assignPrim_def)

lemma init_fold_frame:
  "tabs (foldl (initTab h) s xs) = tabs s \<and>
   currentTabIndex (foldl (initTab h) s xs) = currentTabIndex s \<and>
   doneLog (foldl (initTab h) s xs) = doneLog s"
  by (induction xs arbitrary: s) (simp_all add: initTab_def)

lemma init_fold_responses:
  "responses (foldl (initTab h) s xs) k =
     (if k \<in> id_tab ` set xs then Some \<lparr>selected = [], customText = None\<rparr> else responses s k)"
  by (induction xs arbitrary: s) (auto simp: initTab_def)

lemma init_fold_optionCursor:
  "optionCursor (foldl (initTab h) s xs) k =
     (if k \<in> id_tab ` set xs \<and> k \<noteq> protoKey then Some 0 else optionCursor s k)"
  by (induction xs arbitrary: s) (auto simp: initTab_def assignPrim_apply)

lemma init_fold_customInputMode:
  "customInputMode (foldl (initTab h) s xs) k =
     (if k \<in> id_tab ` set xs \<and> k \<noteq> protoKey then Some False else customInputMode s k)"
  by (induction xs arbitrary: s) (auto simp: initTab_def assignPrim_apply)

lemma init_fold_customInputs:
  "customInputs (foldl (initTab h) s xs) k =
     (if k \<in> id_tab ` set xs then Some \<lparr>buffer = inputNew h, focusedI = False\<rparr>
      else customInputs s k)"
  by (induction xs arbitrary: s) (auto simp: initTab_def)

lemma wellFormed_init: "wellFormed ts (init h ts)"
  by (simp add: wellFormed_def init_def init_fold_frame init_fold_responses init_fold_customInputs)

text \<open>Every method keeps the form well formed. On a well-formed form the parts of
  \<open>handleInput\<close> return, but for the call of \<open>getText\<close>.\<close>

lemma requestRender_wf [simp]: "wellFormed ts (requestRender s) = wellFormed ts s"
  by (simp add: wellFormed_def requestRender_def)

lemma invalidate_wf [simp]: "wellFormed ts (invalidate s) = wellFormed ts s"
  by (simp add: wellFormed_def invalidate_def)

lemma doneCall_wf [simp]: "wellFormed ts (doneCall r s) = wellFormed ts s"
  by (simp add: wellFormed_def doneCall_def)

lemma cursor_wf [simp]: "wellFormed ts (s\<lparr>optionCursor := oc\<rparr>) = wellFormed ts s"
  by (simp add: wellFormed_def)

lemma mode_wf [simp]: "wellFormed ts (s\<lparr>customInputMode := m\<rparr>) = wellFormed ts s"
  by (simp add: wellFormed_def)

lemma cache_wf [simp]:
  "wellFormed ts (s\<lparr>cachedWidth := w, cachedLines := ls\<rparr>) = wellFormed ts s"
  by (simp add: wellFormed_def)

lemma tabIndex_wf:
  "wellFormed ts s \<Longrightarrow> 0 \<le> i \<Longrightarrow> i \<le> int (length ts) \<Longrightarrow> wellFormed ts (s\<lparr>currentTabIndex := i\<rparr>)"
  by (simp add: wellFormed_def)

lemma responses_wf:
  "wellFormed ts s \<Longrightarrow> wellFormed ts (s\<lparr>responses := (responses s)(k \<mapsto> r)\<rparr>)"
  by (simp add: wellFormed_def)

lemma customInputs_wf:
  "wellFormed ts s \<Longrightarrow> wellFormed ts (s\<lparr>customInputs := (customInputs s)(k \<mapsto> i)\<rparr>)"
  by (simp add: wellFormed_def)

lemma customModeInput_wf:
  "wellFormed ts s \<Longrightarrow> holds (customModeInput h data k s) (wellFormed ts)"
  by (simp add: customModeInput_def Let_def responses_wf customInputs_wf split: option.splits)

lemma customModeInput_returns:
  "wellFormed ts s \<Longrightarrow> tab \<in> set ts \<Longrightarrow> inputGetText h \<noteq> None \<Longrightarrow>
   returns (customModeInput h data (id_tab tab) s) (wellFormed ts)"
  by (auto simp: customModeInput_def Let_def responses_wf customInputs_wf split: option.splits)
     (auto simp: wellFormed_def)

lemma enterCustomMode_wf:
  "wellFormed ts s \<Longrightarrow> tab \<in> set ts \<Longrightarrow> returns (enterCustomMode (id_tab tab) s) (wellFormed ts)"
  by (auto simp: wellFormed_def enterCustomMode_def Let_def split: option.splits)

lemma applyOption_wf:
  "wellFormed ts s \<Longrightarrow> tab \<in> set ts \<Longrightarrow> returns (applyOption tab opt s) (wellFormed ts)"
  by (auto simp: wellFormed_def applyOption_def Let_def split: option.splits)

lemma selectAtCursor_wf:
  "wellFormed ts s \<Longrightarrow> tab \<in> set ts \<Longrightarrow> returns (selectAtCursor tab c s) (wellFormed ts)"
  by (simp add: selectAtCursor_def enterCustomMode_wf applyOption_wf split: option.splits)

lemma quickSelect_wf:
  "wellFormed ts s \<Longrightarrow> tab \<in> set ts \<Longrightarrow> returns (quickSelect tab data s) (wellFormed ts)"
  by (simp add: quickSelect_def Let_def enterCustomMode_wf applyOption_wf split: option.splits)

lemma handleInput_wf:
  assumes "wellFormed ts s"
  shows "holds (handleInput h data s) (wellFormed ts)"
proof (cases "nth_opt (tabs s) (currentTabIndex s)")
  case None
  then show ?thesis using assms by (simp add: handleInput_def)
next
  case (Some tab)
  then have tab: "tab \<in> set ts" using assms by (auto simp: wellFormed_def dest: nth_opt_in_set)
  have ts: "tabs s = ts" and lo: "0 \<le> currentTabIndex s" and hi: "currentTabIndex s \<le> int (length ts)"
    using assms by (auto simp: wellFormed_def)
  note sub = customModeInput_wf[OF assms] returns_imp_holds[OF selectAtCursor_wf[OF assms tab]]
    returns_imp_holds[OF quickSelect_wf[OF assms tab]]
  show ?thesis
    using Some assms lo hi ts
    by (simp add: handleInput_def Let_def sub tabIndex_wf)
qed

text \<open>With a method \<open>getText\<close>, \<open>handleInput\<close> returns on every well-formed form.\<close>

lemma handleInput_returns:
  assumes "wellFormed ts s" and g: "inputGetText h \<noteq> None"
  shows "returns (handleInput h data s) (wellFormed ts)"
proof (cases "nth_opt (tabs s) (currentTabIndex s)")
  case None
  then show ?thesis using assms by (simp add: handleInput_def)
next
  case (Some tab)
  then have tab: "tab \<in> set ts" using assms by (auto simp: wellFormed_def dest: nth_opt_in_set)
  have ts: "tabs s = ts" and lo: "0 \<le> currentTabIndex s" and hi: "currentTabIndex s \<le> int (length ts)"
    using assms by (auto simp: wellFormed_def)
  note sub = customModeInput_returns[OF assms(1) tab g] selectAtCursor_wf[OF assms(1) tab]
    quickSelect_wf[OF assms(1) tab]
  show ?thesis
    using Some assms lo hi ts
    by (simp add: handleInput_def Let_def sub tabIndex_wf)
qed

text \<open>Without it, Enter in custom input mode raises, whatever the form.\<close>

lemma custom_enter_raises:
  assumes "nth_opt (tabs s) (currentTabIndex s) = Some tab"
    and "customInputMode s (id_tab tab) = Some True"
    and "\<not> matchesKey h data Escape" and "matchesKey h data Enter"
    and "inputGetText h = None"
  shows "handleInput h data s = Inl TypeError"
proof -
  have "currentTabIndex s \<noteq> int (length (tabs s))"
    using nth_opt_bounds[OF assms(1)] by simp
  then show ?thesis
    using assms by (simp add: handleInput_def Let_def customModeInput_def split: option.splits)
qed

lemma setFocused_wf: "wellFormed ts s \<Longrightarrow> wellFormed ts (setFocused v s)"
  by (auto simp: setFocused_def Let_def wellFormed_def split: option.splits)

lemma customLines_wf:
  "wellFormed ts s \<Longrightarrow> tab \<in> set ts \<Longrightarrow> \<exists>ls. customLines h s w tab = Inr ls"
  by (auto simp: customLines_def Let_def wellFormed_def split: option.splits)

lemma contentLines_wf:
  assumes "wellFormed ts s"
  shows "\<exists>ls. contentLines h s w = Inr ls"
proof (cases "nth_opt (tabs s) (currentTabIndex s)")
  case None
  then show ?thesis by (simp add: contentLines_def)
next
  case (Some tab)
  then have "tab \<in> set ts" using assms by (auto simp: wellFormed_def dest: nth_opt_in_set)
  from customLines_wf[OF assms this, of h w] obtain ls where "customLines h s w tab = Inr ls" ..
  then show ?thesis using Some by (simp add: contentLines_def Let_def)
qed

lemma render_cached:
  "render h w s = Inr (ls, s') \<Longrightarrow>
   s' = s\<lparr>cachedWidth := Some w, cachedLines := Some ls\<rparr> \<and> render h w s' = Inr (ls, s')"
  by (auto simp: render_def Let_def split: if_splits sum.splits)

lemma render_wf:
  assumes "wellFormed ts s"
  shows "\<exists>ls. render h w s = Inr (ls, s\<lparr>cachedWidth := Some w, cachedLines := Some ls\<rparr>)"
proof -
  obtain c where "contentLines h s w = Inr c" using contentLines_wf[OF assms] by blast
  then show ?thesis by (auto simp: render_def Let_def)
qed

lemma render_frame:
  "holds (render h w s) (\<lambda>p. snd p = s\<lparr>cachedWidth := Some w, cachedLines := Some (fst p)\<rparr>)"
proof (cases "render h w s")
  case (Inl e)
  then show ?thesis by simp
next
  case (Inr p)
  then have "render h w s = Inr (fst p, snd p)" by simp
  from render_cached[OF this] Inr show ?thesis by simp
qed

lemma step_render:
  "step h (Render w) s = Inr s' \<Longrightarrow> \<exists>ls. s' = s\<lparr>cachedWidth := Some w, cachedLines := Some ls\<rparr>"
  using render_frame[of h w s]
  by (auto simp: step_def split: sum.splits prod.splits)

lemma step_wf: "wellFormed ts s \<Longrightarrow> holds (step h e s) (wellFormed ts)"
proof (cases e)
  case (Render w)
  assume wf: "wellFormed ts s"
  show ?thesis
  proof (cases "step h e s")
    case (Inl a)
    then show ?thesis by simp
  next
    case (Inr s')
    with step_render[of h w s s'] Render wf show ?thesis by auto
  qed
qed (simp_all add: step_def handleInput_wf setFocused_wf abort_def)

lemma run_holds:
  assumes "\<And>e s. I s \<Longrightarrow> holds (step h e s) I"
  shows "I s \<Longrightarrow> holds (run h es s) I"
proof (induction es arbitrary: s)
  case Nil
  then show ?case by simp
next
  case (Cons e es)
  show ?case
  proof (cases "step h e s")
    case (Inl a)
    then show ?thesis by simp
  next
    case (Inr s1)
    with assms[OF Cons.prems, of e] have "I s1" by simp
    from Cons.IH[OF this] Inr show ?thesis by simp
  qed
qed

lemma run_wf: "holds (run h es (init h ts)) (wellFormed ts)"
  by (rule run_holds[where I = "wellFormed ts"]) (simp_all add: step_wf wellFormed_init)

subsection \<open>Rendering\<close>

text \<open>
  Claim C8. In every state that the form reaches and for every width, \<open>render\<close> returns
  its lines and changes nothing of the form but the two cache fields; a second call with
  the same width, with nothing in between, returns the same lines and the same form.
\<close>

theorem render_idempotent:
  assumes "run h es (init h ts) = Inr s"
  shows "\<exists>ls. render h w s = Inr (ls, s\<lparr>cachedWidth := Some w, cachedLines := Some ls\<rparr>)
     \<and> render h w (s\<lparr>cachedWidth := Some w, cachedLines := Some ls\<rparr>)
         = Inr (ls, s\<lparr>cachedWidth := Some w, cachedLines := Some ls\<rparr>)"
proof -
  have "wellFormed ts s" using run_wf[of h es ts] assms by simp
  then obtain ls where r: "render h w s = Inr (ls, s\<lparr>cachedWidth := Some w, cachedLines := Some ls\<rparr>)"
    using render_wf by blast
  from render_cached[OF r] r show ?thesis by blast
qed

theorem render_idempotent_witness:
  "\<exists>ls. render ttyHost 40 (init ttyHost [colorTab, notesTab])
          = Inr (ls, (init ttyHost [colorTab, notesTab])\<lparr>cachedWidth := Some 40, cachedLines := Some ls\<rparr>)
     \<and> render ttyHost 40
          ((init ttyHost [colorTab, notesTab])\<lparr>cachedWidth := Some 40, cachedLines := Some ls\<rparr>)
          = Inr (ls, (init ttyHost [colorTab, notesTab])\<lparr>cachedWidth := Some 40, cachedLines := Some ls\<rparr>)"
proof -
  have "run ttyHost [] (init ttyHost [colorTab, notesTab]) = Inr (init ttyHost [colorTab, notesTab])"
    by simp
  from render_idempotent [OF this, of 40] show ?thesis .
qed

subsection \<open>What the parts of handleInput leave alone\<close>

lemma enterCustomMode_frame:
  "holds (enterCustomMode k s)
     (\<lambda>s'. optionCursor s' = optionCursor s \<and> doneLog s' = doneLog s \<and> responses s' = responses s
           \<and> customInputMode s' = (customInputMode s)(k \<mapsto> True))"
  by (simp add: enterCustomMode_def Let_def split: option.splits)

lemma applyOption_frame:
  "holds (applyOption tab opt s)
     (\<lambda>s'. optionCursor s' = optionCursor s \<and> doneLog s' = doneLog s
           \<and> customInputMode s' = customInputMode s)"
  by (simp add: applyOption_def Let_def split: option.splits)

lemma customModeInput_frame:
  "holds (customModeInput h data k s)
     (\<lambda>s'. optionCursor s' = optionCursor s \<and> doneLog s' = doneLog s
           \<and> customInputMode s' protoKey = customInputMode s protoKey)"
  by (auto simp: customModeInput_def Let_def requestRender_def invalidate_def assignPrim_def
        split: option.splits)

lemma selectAtCursor_frame:
  "holds (selectAtCursor tab c s)
     (\<lambda>s'. optionCursor s' = optionCursor s \<and> doneLog s' = doneLog s
           \<and> (customInputMode s protoKey = Some True \<longrightarrow> customInputMode s' protoKey = Some True))"
  by (auto simp: selectAtCursor_def requestRender_def invalidate_def split: option.splits
           intro: holds_mono[OF enterCustomMode_frame] holds_mono[OF applyOption_frame])

lemma quickSelect_frame:
  "holds (quickSelect tab data s)
     (\<lambda>s'. doneLog s' = doneLog s
           \<and> (customInputMode s protoKey = Some True \<longrightarrow> customInputMode s' protoKey = Some True))"
  by (auto simp: quickSelect_def Let_def requestRender_def invalidate_def split: option.splits
           intro: holds_mono[OF enterCustomMode_frame] holds_mono[OF applyOption_frame])

subsection \<open>The key \<open>__proto__\<close>\<close>

text \<open>After the constructor a read of \<open>optionCursor["__proto__"]\<close> gives no number, and
  one of \<open>customInputMode["__proto__"]\<close> a true value, whatever the tabs are.\<close>

lemma init_protoKey:
  "optionCursor (init h ts) protoKey = None \<and> customInputMode (init h ts) protoKey = Some True"
  by (simp add: init_def init_fold_optionCursor init_fold_customInputMode emptyCursors_def
        emptyModes_def)

lemma handleInput_proto:
  assumes "customInputMode s protoKey = Some True"
  shows "holds (handleInput h data s) (\<lambda>s'. customInputMode s' protoKey = Some True)"
proof (cases "nth_opt (tabs s) (currentTabIndex s)")
  case None
  then show ?thesis using assms by (simp add: handleInput_def)
next
  case (Some tab)
  have cm: "holds (customModeInput h data (id_tab tab) s) (\<lambda>s'. customInputMode s' protoKey = Some True)"
    by (rule holds_mono[OF customModeInput_frame]) (simp add: assms)
  have sel: "holds (selectAtCursor tab c s) (\<lambda>s'. customInputMode s' protoKey = Some True)" for c
    by (rule holds_mono[OF selectAtCursor_frame]) (simp add: assms)
  have qs: "holds (quickSelect tab data s) (\<lambda>s'. customInputMode s' protoKey = Some True)"
    by (rule holds_mono[OF quickSelect_frame]) (simp add: assms)
  show ?thesis
    using Some assms
    by (simp add: handleInput_def Let_def cm sel qs requestRender_def invalidate_def doneCall_def)
qed

lemma step_proto:
  assumes "customInputMode s protoKey = Some True"
  shows "holds (step h e s) (\<lambda>s'. customInputMode s' protoKey = Some True)"
proof (cases e)
  case (HandleInput data)
  then show ?thesis using handleInput_proto[OF assms] by (simp add: step_def)
next
  case (Render w)
  show ?thesis
  proof (cases "step h e s")
    case (Inl a)
    then show ?thesis by simp
  next
    case (Inr s')
    with step_render[of h w s s'] Render assms show ?thesis by auto
  qed
qed (use assms in \<open>simp_all add: step_def abort_def doneCall_def invalidate_def setFocused_def
       Let_def split: option.splits\<close>)

text \<open>A tab with the id \<open>__proto__\<close> is in custom input mode in every state that the form
  reaches: the assignments of \<open>false\<close> do nothing.\<close>

lemma proto_tab_in_custom_mode:
  "holds (run h es (init h ts)) (\<lambda>s. customInputMode s protoKey = Some True)"
  by (rule run_holds[where I = "\<lambda>s. customInputMode s protoKey = Some True"])
     (simp_all add: step_proto init_protoKey)

subsection \<open>Custom text and selection exclude each other\<close>


lemma requestRender_excl [simp]: "exclusive (requestRender s) = exclusive s"
  by (simp add: exclusive_def requestRender_def)

lemma invalidate_excl [simp]: "exclusive (invalidate s) = exclusive s"
  by (simp add: exclusive_def invalidate_def)


lemma customInputMode_excl [simp]: "exclusive (s\<lparr>customInputMode := m\<rparr>) = exclusive s"
  by (simp add: exclusive_def)

lemma customInputs_excl [simp]: "exclusive (s\<lparr>customInputs := m\<rparr>) = exclusive s"
  by (simp add: exclusive_def)

lemma cursor_excl [simp]: "exclusive (s\<lparr>optionCursor := oc\<rparr>) = exclusive s"
  by (simp add: exclusive_def)

lemma doneCall_excl [simp]: "exclusive (doneCall r s) = exclusive s"
  by (simp add: exclusive_def doneCall_def)

lemma tabIndex_excl [simp]: "exclusive (s\<lparr>currentTabIndex := i\<rparr>) = exclusive s"
  by (simp add: exclusive_def)

lemma focused_excl [simp]: "exclusive (s\<lparr>focused := v\<rparr>) = exclusive s"
  by (simp add: exclusive_def)

lemma cache_excl [simp]: "exclusive (s\<lparr>cachedWidth := w, cachedLines := ls\<rparr>) = exclusive s"
  by (simp add: exclusive_def)











lemma indexOf_lower: "- 1 \<le> indexOf xs v"
  by (induction xs) (auto simp: Let_def)








subsection \<open>The cursor stays on a slot\<close>

lemma cursorsIn_init: "cursorsIn ts (init h ts)"
  by (simp add: cursorsIn_def init_def init_fold_optionCursor)

lemma cursorsIn_same: "optionCursor s' = optionCursor s \<Longrightarrow> cursorsIn ts s \<Longrightarrow> cursorsIn ts s'"
  by (simp add: cursorsIn_def)

lemma cursorsIn_upd:
  assumes inv: "cursorsIn ts s" and d: "distinct (map id_tab ts)" and tab: "tab \<in> set ts"
    and v: "0 < optionCount tab \<Longrightarrow> id_tab tab \<noteq> protoKey \<Longrightarrow> 0 \<le> v \<and> v < optionCount tab"
  shows "cursorsIn ts (s\<lparr>optionCursor := (optionCursor s)(id_tab tab \<mapsto> v)\<rparr>)"
  unfolding cursorsIn_def
proof (intro ballI impI)
  fix t assume t: "t \<in> set ts" and pos: "0 < optionCount t" and ord: "id_tab t \<noteq> protoKey"
  show "\<exists>c. optionCursor (s\<lparr>optionCursor := (optionCursor s)(id_tab tab \<mapsto> v)\<rparr>) (id_tab t) = Some c
            \<and> 0 \<le> c \<and> c < optionCount t"
  proof (cases "id_tab t = id_tab tab")
    case True
    from d have "inj_on id_tab (set ts)" by (simp add: distinct_map)
    with True t tab have "t = tab" by (auto dest: inj_onD)
    with v pos ord show ?thesis by simp
  next
    case False
    with inv t pos ord show ?thesis by (simp add: cursorsIn_def)
  qed
qed

lemma cursorsIn_cursor:
  "cursorsIn ts s \<Longrightarrow> tab \<in> set ts \<Longrightarrow> 0 < optionCount tab \<Longrightarrow> id_tab tab \<noteq> protoKey \<Longrightarrow>
   \<exists>c. optionCursor s (id_tab tab) = Some c \<and> 0 \<le> c \<and> c < optionCount tab"
  by (simp add: cursorsIn_def)

lemma cursorsIn_set:
  assumes "cursorsIn ts s" "distinct (map id_tab ts)" "tab \<in> set ts"
    and "0 < optionCount tab \<Longrightarrow> id_tab tab \<noteq> protoKey \<Longrightarrow> 0 \<le> v \<and> v < optionCount tab"
    and "optionCursor s' = (optionCursor s)(id_tab tab \<mapsto> v)"
  shows "cursorsIn ts s'"
  by (rule cursorsIn_same[OF _ cursorsIn_upd[OF assms(1-4)]]) (simp add: assms(5))

lemma requestRender_cursors [simp]: "cursorsIn ts (requestRender s) = cursorsIn ts s"
  by (simp add: cursorsIn_def requestRender_def)

lemma invalidate_cursors [simp]: "cursorsIn ts (invalidate s) = cursorsIn ts s"
  by (simp add: cursorsIn_def invalidate_def)

lemma doneCall_cursors [simp]: "cursorsIn ts (doneCall r s) = cursorsIn ts s"
  by (simp add: cursorsIn_def doneCall_def)

lemma tabIndex_cursors [simp]: "cursorsIn ts (s\<lparr>currentTabIndex := i\<rparr>) = cursorsIn ts s"
  by (simp add: cursorsIn_def)

lemma quickSelect_cursors:
  assumes inv: "cursorsIn ts s" and d: "distinct (map id_tab ts)" and tab: "tab \<in> set ts"
  shows "holds (quickSelect tab data s) (cursorsIn ts)"
proof -
  have via: "holds r (\<lambda>s1. cursorsIn ts
                 (s1\<lparr>optionCursor := (optionCursor s1)(id_tab tab \<mapsto> n - 1)\<rparr>))"
    if fr: "holds r (\<lambda>s1. optionCursor s1 = optionCursor s)" and n: "1 \<le> n" "n \<le> optionCount tab"
    for r :: "error + 'a form" and n
  proof (cases r)
    case (Inl e)
    then show ?thesis by simp
  next
    case (Inr s1)
    with fr have "optionCursor s1 = optionCursor s" by simp
    then have "cursorsIn ts (s1\<lparr>optionCursor := (optionCursor s1)(id_tab tab \<mapsto> n - 1)\<rparr>)"
      using n by (intro cursorsIn_set[OF inv d tab, of "n - 1"]) simp_all
    with Inr show ?thesis by simp
  qed
  have f1: "holds (enterCustomMode (id_tab tab) s) (\<lambda>s1. optionCursor s1 = optionCursor s)"
    by (rule holds_mono[OF enterCustomMode_frame]) simp
  have f2: "holds (applyOption tab opt s) (\<lambda>s1. optionCursor s1 = optionCursor s)" for opt
    by (rule holds_mono[OF applyOption_frame]) simp
  show ?thesis
  proof (cases "parseInt data")
    case None
    then show ?thesis using inv by (simp add: quickSelect_def)
  next
    case (Some n)
    show ?thesis
    proof (cases "1 \<le> n \<and> n \<le> optionCount tab")
      case False
      then show ?thesis using Some inv by (auto simp add: quickSelect_def)
    next
      case True
      then have n: "1 \<le> n" "n \<le> optionCount tab" by auto
      define r where "r =
        (if allowCustom tab \<and> n - 1 = int (length (options tab))
         then enterCustomMode (id_tab tab) s
         else (case nth_opt (options tab) (n - 1) of
                 None \<Rightarrow> Inr s
               | Some option \<Rightarrow> applyOption tab option s))"
      have "holds r (\<lambda>s1. optionCursor s1 = optionCursor s)"
        unfolding r_def using f1 f2 by (simp split: option.splits)
      from via[OF this n]
      have "holds r (\<lambda>s1. cursorsIn ts
              (s1\<lparr>optionCursor := (optionCursor s1)(id_tab tab \<mapsto> n - 1)\<rparr>))" .
      moreover have "quickSelect tab data s =
        (case r of
           Inl e \<Rightarrow> Inl e
         | Inr s1 \<Rightarrow> Inr (requestRender (invalidate
                     (s1\<lparr>optionCursor := (optionCursor s1)(id_tab tab \<mapsto> n - 1)\<rparr>))))"
        using Some True unfolding quickSelect_def Let_def r_def by simp
      ultimately show ?thesis by simp
    qed
  qed
qed

lemma handleInput_cursors:
  assumes inv: "cursorsIn ts s" and d: "distinct (map id_tab ts)" and ts: "tabs s = ts"
  shows "holds (handleInput h data s) (cursorsIn ts)"
proof (cases "nth_opt (tabs s) (currentTabIndex s)")
  case None
  then show ?thesis using inv by (simp add: handleInput_def)
next
  case (Some tab)
  then have tab: "tab \<in> set ts" using ts by (auto dest: nth_opt_in_set)
  define cursor where "cursor = (case optionCursor s (id_tab tab) of None \<Rightarrow> 0 | Some c \<Rightarrow> c)"
  have rng: "0 \<le> cursor \<and> cursor < optionCount tab"
    if "0 < optionCount tab" "id_tab tab \<noteq> protoKey"
    using cursorsIn_cursor[OF inv tab that] by (auto simp: cursor_def)
  have up: "cursorsIn ts (s\<lparr>optionCursor := (optionCursor s)(id_tab tab \<mapsto> max 0 (cursor - 1))\<rparr>)"
    using rng by (intro cursorsIn_upd[OF inv d tab]) auto
  have down: "cursorsIn ts (s\<lparr>optionCursor := (optionCursor s)(id_tab tab \<mapsto>
                  min (optionCount tab - 1) (cursor + 1))\<rparr>)"
    using rng by (intro cursorsIn_upd[OF inv d tab]) auto
  have cm: "holds (customModeInput h data (id_tab tab) s) (cursorsIn ts)"
    by (rule holds_mono[OF customModeInput_frame]) (simp add: cursorsIn_same[OF _ inv])
  have sel: "holds (selectAtCursor tab c s) (cursorsIn ts)" for c
    by (rule holds_mono[OF selectAtCursor_frame]) (simp add: cursorsIn_same[OF _ inv])
  note qs = quickSelect_cursors[OF inv d tab]
  show ?thesis
    using Some inv up down
    by (simp add: handleInput_def Let_def cm sel qs cursor_def)
qed

lemma setFocused_cursors: "cursorsIn ts s \<Longrightarrow> cursorsIn ts (setFocused v s)"
  by (rule cursorsIn_same) (simp_all add: setFocused_def Let_def split: option.splits)

lemma step_cursors:
  assumes inv: "cursorsIn ts s" and d: "distinct (map id_tab ts)" and ts: "tabs s = ts"
  shows "holds (step h e s) (cursorsIn ts)"
proof (cases e)
  case (HandleInput data)
  then show ?thesis using handleInput_cursors[OF assms] by (simp add: step_def)
next
  case (Render w)
  show ?thesis
  proof (cases "render h w s")
    case (Inl a)
    then show ?thesis using Render by (simp add: step_def)
  next
    case (Inr p)
    with render_frame[of h w s]
    have "snd p = s\<lparr>cachedWidth := Some w, cachedLines := Some (fst p)\<rparr>" by simp
    then have "optionCursor (snd p) = optionCursor s" by simp
    from cursorsIn_same[OF this inv] Inr Render show ?thesis
      by (auto simp add: step_def split: prod.splits)
  qed
qed (use inv in \<open>simp_all add: step_def setFocused_cursors abort_def\<close>)

lemma run_cursors:
  assumes d: "distinct (map id_tab ts)"
  shows "holds (run h es (init h ts)) (\<lambda>s. wellFormed ts s \<and> cursorsIn ts s)"
proof (rule run_holds[where I = "\<lambda>s. wellFormed ts s \<and> cursorsIn ts s"])
  fix e and s :: "'a form"
  assume a: "wellFormed ts s \<and> cursorsIn ts s"
  then have "tabs s = ts" by (simp add: wellFormed_def)
  with a d show "holds (step h e s) (\<lambda>s. wellFormed ts s \<and> cursorsIn ts s)"
    by (intro holds_conj step_wf step_cursors) simp_all
qed (simp add: wellFormed_init cursorsIn_init)

text \<open>The cursor of a tab with the id \<open>__proto__\<close> is no number, in any state that the
  form reaches: the constructor's assignment of 0 does nothing, and the tab is in custom
  input mode, where the cursor is not written.\<close>

lemma handleInput_proto_cursor:
  assumes "customInputMode s protoKey = Some True" and "optionCursor s protoKey = None"
  shows "holds (handleInput h data s) (\<lambda>s'. optionCursor s' protoKey = None)"
proof (cases "nth_opt (tabs s) (currentTabIndex s)")
  case None
  then show ?thesis using assms by (simp add: handleInput_def)
next
  case (Some tab)
  have sub: "currentTabIndex s \<noteq> int (length (tabs s))"
    using nth_opt_bounds[OF Some] by simp
  show ?thesis
  proof (cases "id_tab tab = protoKey")
    case True
    then have "handleInput h data s = customModeInput h data protoKey s"
      using Some assms sub by (simp add: handleInput_def Let_def)
    moreover have "holds (customModeInput h data protoKey s) (\<lambda>s'. optionCursor s' protoKey = None)"
      by (rule holds_mono[OF customModeInput_frame]) (simp add: assms)
    ultimately show ?thesis by simp
  next
    case False
    have cm: "holds (customModeInput h data (id_tab tab) s) (\<lambda>s'. optionCursor s' protoKey = None)"
      by (rule holds_mono[OF customModeInput_frame]) (simp add: assms)
    have sel: "holds (selectAtCursor tab c s) (\<lambda>s'. optionCursor s' protoKey = None)" for c
      by (rule holds_mono[OF selectAtCursor_frame]) (simp add: assms)
    have f1: "holds (enterCustomMode (id_tab tab) s) (\<lambda>s1. optionCursor s1 = optionCursor s)"
      by (rule holds_mono[OF enterCustomMode_frame]) simp
    have f2: "holds (applyOption tab opt s) (\<lambda>s1. optionCursor s1 = optionCursor s)" for opt
      by (rule holds_mono[OF applyOption_frame]) simp
    have qs: "holds (quickSelect tab data s) (\<lambda>s'. optionCursor s' protoKey = None)"
    proof (cases "parseInt data")
      case None
      then show ?thesis using assms by (simp add: quickSelect_def)
    next
      case (Some n)
      show ?thesis
      proof (cases "1 \<le> n \<and> n \<le> optionCount tab")
        case False
        then show ?thesis using Some assms by (auto simp add: quickSelect_def)
      next
        case True
        define r where "r =
          (if allowCustom tab \<and> n - 1 = int (length (options tab))
           then enterCustomMode (id_tab tab) s
           else (case nth_opt (options tab) (n - 1) of
                   None \<Rightarrow> Inr s
                 | Some option \<Rightarrow> applyOption tab option s))"
        have "holds r (\<lambda>s1. optionCursor s1 = optionCursor s)"
          unfolding r_def using f1 f2 by (simp split: option.splits)
        then have "holds r (\<lambda>s1. optionCursor
              (s1\<lparr>optionCursor := (optionCursor s1)(id_tab tab \<mapsto> n - 1)\<rparr>) protoKey = None)"
          by (rule holds_mono) (use False assms in simp)
        moreover have "quickSelect tab data s =
          (case r of
             Inl e \<Rightarrow> Inl e
           | Inr s1 \<Rightarrow> Inr (requestRender (invalidate
                       (s1\<lparr>optionCursor := (optionCursor s1)(id_tab tab \<mapsto> n - 1)\<rparr>))))"
          using Some True unfolding quickSelect_def Let_def r_def by simp
        ultimately show ?thesis by (simp add: requestRender_def invalidate_def)
      qed
    qed
    show ?thesis
      using Some assms False
      by (simp add: handleInput_def Let_def cm sel qs requestRender_def invalidate_def doneCall_def)
  qed
qed

lemma proto_tab_has_no_cursor:
  "holds (run h es (init h ts))
     (\<lambda>s. customInputMode s protoKey = Some True \<and> optionCursor s protoKey = None)"
proof (rule run_holds[where I = "\<lambda>s. customInputMode s protoKey = Some True \<and> optionCursor s protoKey = None"])
  fix e and s :: "'a form"
  assume a: "customInputMode s protoKey = Some True \<and> optionCursor s protoKey = None"
  have "holds (step h e s) (\<lambda>s'. optionCursor s' protoKey = None)"
  proof (cases e)
    case (HandleInput data)
    then show ?thesis using handleInput_proto_cursor[of s h data] a by (simp add: step_def)
  next
    case (Render w)
    show ?thesis
    proof (cases "step h e s")
      case (Inl x)
      then show ?thesis by simp
    next
      case (Inr s')
      with step_render[of h w s s'] Render a show ?thesis by auto
    qed
  qed (use a in \<open>simp_all add: step_def abort_def doneCall_def invalidate_def setFocused_def
         Let_def split: option.splits\<close>)
  with step_proto[of s h e] a
  show "holds (step h e s) (\<lambda>s. customInputMode s protoKey = Some True \<and> optionCursor s protoKey = None)"
    by (intro holds_conj) simp_all
qed (simp add: init_protoKey)

text \<open>The form of the single tab \<open>protoTab\<close>, as the constructor leaves it.\<close>

lemma proto_tab_example:
  "optionCursor (init ttyHost [protoTab]) (id_tab protoTab) = None
   \<and> customInputMode (init ttyHost [protoTab]) (id_tab protoTab) = Some True
   \<and> 0 < optionCount protoTab"
  by code_simp

text \<open>
  Claim C6, amended. When the tab ids are distinct, the cursor of every tab that has at
  least one slot (an option, or the custom entry) and whose id is not the key
  \<open>__proto__\<close> is on one of its slots in every state that the form reaches from its
  construction: \<open>0 \<le> optionCursor[tab] < optionCount\<close>.
\<close>

theorem cursor_in_bounds:
  assumes "distinct (map id_tab ts)" and "t \<in> set ts" and "0 < optionCount t"
    and "id_tab t \<noteq> protoKey"
    and "run h es (init h ts) = Inr s"
  shows "\<exists>c. optionCursor s (id_tab t) = Some c \<and> 0 \<le> c \<and> c < optionCount t"
proof -
  have "cursorsIn ts s"
    using run_cursors[OF assms(1), of h es] assms(5) by simp
  from cursorsIn_cursor[OF this assms(2,3,4)] show ?thesis .
qed

theorem cursor_in_bounds_witness:
  "distinct (map id_tab [bareTab, notesTab]) \<and> notesTab \<in> set [bareTab, notesTab]
   \<and> 0 < optionCount notesTab \<and> id_tab notesTab \<noteq> protoKey
   \<and> (\<exists>s c. run ttyHost cursorKeys (init ttyHost [bareTab, notesTab]) = Inr s
          \<and> optionCursor s (id_tab notesTab) = Some c \<and> 0 \<le> c \<and> c < optionCount notesTab)"
proof -
  let ?R = "run ttyHost cursorKeys (init ttyHost [bareTab, notesTab])"
  have h1: "distinct (map id_tab [bareTab, notesTab])" by code_simp
  have h2: "notesTab \<in> set [bareTab, notesTab]" by simp
  have h3: "0 < optionCount notesTab" by code_simp
  have h4: "id_tab notesTab \<noteq> protoKey" by code_simp
  have "\<not> isl ?R" by code_simp
  then obtain s where s: "?R = Inr s" by (cases ?R) simp_all
  from cursor_in_bounds [OF h1 h2 h3 h4 s]
  have "\<exists>c. optionCursor s (id_tab notesTab) = Some c \<and> 0 \<le> c \<and> c < optionCount notesTab" .
  with s have "\<exists>s c. ?R = Inr s
          \<and> optionCursor s (id_tab notesTab) = Some c \<and> 0 \<le> c \<and> c < optionCount notesTab"
    by blast
  with h1 h2 h3 h4 show ?thesis by (intro conjI)
qed

theorem cursor_out_of_bounds_counterexample:
  "optionCursor (init ttyHost [bareTab]) (id_tab bareTab) = Some 0
   \<and> optionCount bareTab = 0
   \<and> optionCursor (projr (run ttyHost [HandleInput [0x1B, 0x5B, 0x42]] (init ttyHost [bareTab])))
        (id_tab bareTab) = Some (- 1)"
  by code_simp


subsection \<open>Calls of the completion callback\<close>

lemma handleInput_doneLog:
  "holds (handleInput h data s)
     (\<lambda>s'. doneLog s' = doneLog s \<or> (\<exists>r. doneLog s' = doneLog s @ [r]))"
proof (cases "nth_opt (tabs s) (currentTabIndex s)")
  case None
  then show ?thesis by (simp add: handleInput_def)
next
  case (Some tab)
  have cm: "holds (customModeInput h data (id_tab tab) s)
              (\<lambda>s'. doneLog s' = doneLog s \<or> (\<exists>r. doneLog s' = doneLog s @ [r]))"
    by (rule holds_mono[OF customModeInput_frame]) simp
  have sel: "holds (selectAtCursor tab c s)
               (\<lambda>s'. doneLog s' = doneLog s \<or> (\<exists>r. doneLog s' = doneLog s @ [r]))"
    for c
    by (rule holds_mono[OF selectAtCursor_frame]) simp
  have qs: "holds (quickSelect tab data s)
              (\<lambda>s'. doneLog s' = doneLog s \<or> (\<exists>r. doneLog s' = doneLog s @ [r]))"
    by (rule holds_mono[OF quickSelect_frame]) simp
  show ?thesis
    using Some
    by (simp add: handleInput_def Let_def cm sel qs requestRender_def invalidate_def doneCall_def)
qed

lemma step_doneLog:
  "holds (step h e s)
     (\<lambda>s'. doneLog s' = doneLog s \<or> (isInputOrAbort e \<and> (\<exists>r. doneLog s' = doneLog s @ [r])))"
proof (cases e)
  case (HandleInput data)
  then show ?thesis
    using handleInput_doneLog[of h data s] by (simp add: step_def isInputOrAbort_def)
next
  case (Render w)
  show ?thesis
  proof (cases "step h e s")
    case (Inl a)
    then show ?thesis by simp
  next
    case (Inr s')
    with step_render[of h w s s'] Render show ?thesis by auto
  qed
qed (simp_all add: step_def abort_def doneCall_def setFocused_def invalidate_def Let_def
       isInputOrAbort_def split: option.splits)

lemma run_doneLog:
  "holds (run h es s)
     (\<lambda>s'. length (doneLog s') \<le> length (doneLog s) + length (filter isInputOrAbort es))"
proof (induction es arbitrary: s)
  case Nil
  then show ?case by simp
next
  case (Cons e es)
  show ?case
  proof (cases "step h e s")
    case (Inl a)
    then show ?thesis by simp
  next
    case (Inr s1)
    from step_doneLog[of h e s] Inr
    have b1: "length (doneLog s1) \<le> length (doneLog s) + (if isInputOrAbort e then 1 else 0)"
      by auto
    have "holds (run h es s1)
       (\<lambda>s'. length (doneLog s') \<le> length (doneLog s) + length (filter isInputOrAbort (e # es)))"
      by (rule holds_mono[OF Cons.IH[of s1]]) (use b1 in \<open>simp split: if_splits\<close>)
    with Inr show ?thesis by simp
  qed
qed

text \<open>
  Claim C2, amended. The form keeps no record of a completion. A new form has made no
  call of the completion callback. One event, in any state, makes at most one call: an
  input token or a firing of the abort signal leaves the calls made so far as they are or
  adds one call to them, and a rendering, an invalidation and a change of focus leave them
  as they are. So a sequence of events makes at most as many calls as it has input tokens
  and firings of the abort signal.
\<close>

theorem done_at_most_once_per_event:
  "doneLog (init h ts) = []
   \<and> (step h e s = Inr s' \<longrightarrow>
        doneLog s' = doneLog s \<or> (isInputOrAbort e \<and> (\<exists>r. doneLog s' = doneLog s @ [r])))
   \<and> (run h es s = Inr s'' \<longrightarrow>
        length (doneLog s'') \<le> length (doneLog s) + length (filter isInputOrAbort es))"
proof (intro conjI impI)
  show "doneLog (init h ts) = []" by (simp add: init_def init_fold_frame)
next
  assume "step h e s = Inr s'"
  with step_doneLog[of h e s]
  show "doneLog s' = doneLog s \<or> (isInputOrAbort e \<and> (\<exists>r. doneLog s' = doneLog s @ [r]))"
    by simp
next
  assume "run h es s = Inr s''"
  with run_doneLog[of h es s]
  show "length (doneLog s'') \<le> length (doneLog s) + length (filter isInputOrAbort es)"
    by simp
qed

theorem done_at_most_once_per_event_witness:
  "(\<exists>s'. step ttyHost (HandleInput [0x1B]) (init ttyHost [colorTab, notesTab]) = Inr s'
        \<and> (\<exists>r. doneLog s' = [r]))
   \<and> (\<exists>s'. step ttyHost (Render 20) (init ttyHost [colorTab, notesTab]) = Inr s'
        \<and> doneLog s' = [])
   \<and> (\<exists>s''. run ttyHost cancelKeys (init ttyHost [colorTab, notesTab]) = Inr s''
        \<and> length (doneLog s'') \<le> 3)"
proof (intro conjI)
  let ?i = "init ttyHost [colorTab, notesTab]"
  let ?E = "step ttyHost (HandleInput [0x1B]) ?i"
  have i: "doneLog ?i = []"
    using done_at_most_once_per_event [of ttyHost "[colorTab, notesTab]"] by (rule conjunct1)
  have "\<not> isl ?E" by code_simp
  then obtain s' where s': "?E = Inr s'" by (cases ?E) simp_all
  have "doneLog (projr ?E) \<noteq> []" by code_simp
  then have ne: "doneLog s' \<noteq> []" by (simp add: s')
  from done_at_most_once_per_event
         [where h = ttyHost and e = "HandleInput [0x1B]" and s = ?i and s' = s',
          THEN conjunct2, THEN conjunct1, THEN mp, OF s']
  have "\<exists>r. doneLog s' = [r]" using ne i by auto
  with s' show "\<exists>s'. ?E = Inr s' \<and> (\<exists>r. doneLog s' = [r])" by blast
next
  let ?i = "init ttyHost [colorTab, notesTab]"
  let ?E = "step ttyHost (Render 20) ?i"
  have i: "doneLog ?i = []"
    using done_at_most_once_per_event [of ttyHost "[colorTab, notesTab]"] by (rule conjunct1)
  have "\<not> isl ?E" by code_simp
  then obtain s' where s': "?E = Inr s'" by (cases ?E) simp_all
  from done_at_most_once_per_event
         [where h = ttyHost and e = "Render 20" and s = ?i and s' = s',
          THEN conjunct2, THEN conjunct1, THEN mp, OF s']
  have "doneLog s' = []" using i by (simp add: isInputOrAbort_def)
  with s' show "\<exists>s'. ?E = Inr s' \<and> doneLog s' = []" by blast
next
  let ?i = "init ttyHost [colorTab, notesTab]"
  let ?R = "run ttyHost cancelKeys ?i"
  have i: "doneLog ?i = []"
    using done_at_most_once_per_event [of ttyHost "[colorTab, notesTab]"] by (rule conjunct1)
  have n: "length (filter isInputOrAbort cancelKeys) = 3" by code_simp
  have "\<not> isl ?R" by code_simp
  then obtain s'' where s'': "?R = Inr s''" by (cases ?R) simp_all
  from done_at_most_once_per_event
         [where h = ttyHost and es = cancelKeys and s = ?i and s'' = s'',
          THEN conjunct2, THEN conjunct2, THEN mp, OF s'']
  have "length (doneLog s'') \<le> 3" using i n by simp
  with s'' show "\<exists>s''. ?R = Inr s'' \<and> length (doneLog s'') \<le> 3" by blast
qed

theorem done_twice_counterexample:
  "length (doneLog (projr (run ttyHost [HandleInput [0x1B], HandleInput [0x1B]]
                            (init ttyHost [colorTab, notesTab])))) = 2
   \<and> optionCursor (projr (run ttyHost [HandleInput [0x1B], HandleInput [0x1B, 0x5B, 0x42]]
                            (init ttyHost [colorTab, notesTab]))) (id_tab colorTab) = Some 1"
  by code_simp


subsection \<open>Single keys\<close>

lemma truthyStr_iff [simp]: "truthyStr t \<longleftrightarrow> t \<noteq> []"
  by (cases t) (simp_all add: truthyStr_def)

lemma parseInt_digit: "1 \<le> d \<Longrightarrow> d \<le> 9 \<Longrightarrow> parseInt [0x30 + d] = Some (int d)"
  by (simp add: parseInt_def isWhiteSpace_def isDigit_def digitsValue_def Let_def)

lemma enterCustomMode_cursor:
  "enterCustomMode k (s\<lparr>optionCursor := m\<rparr>) =
     (case enterCustomMode k s of Inl e \<Rightarrow> Inl e | Inr s1 \<Rightarrow> Inr (s1\<lparr>optionCursor := m\<rparr>))"
  by (simp add: enterCustomMode_def Let_def split: option.splits)

lemma applyOption_cursor:
  "applyOption tab opt (s\<lparr>optionCursor := m\<rparr>) =
     (case applyOption tab opt s of Inl e \<Rightarrow> Inl e | Inr s1 \<Rightarrow> Inr (s1\<lparr>optionCursor := m\<rparr>))"
  by (simp add: applyOption_def Let_def split: option.splits)

lemma enterCustomMode_frameD:
  "enterCustomMode k s = Inr s1 \<Longrightarrow> optionCursor s1 = optionCursor s"
  using enterCustomMode_frame[of k s] by simp

lemma applyOption_frameD:
  "applyOption tab opt s = Inr s1 \<Longrightarrow> optionCursor s1 = optionCursor s"
  using applyOption_frame[of tab opt s] by simp

lemma quickSelect_eq:
  assumes n: "1 \<le> n" "n \<le> optionCount tab" and p: "parseInt data = Some n"
  shows "quickSelect tab data s =
           selectAtCursor tab (n - 1) (s\<lparr>optionCursor := (optionCursor s)(id_tab tab \<mapsto> n - 1)\<rparr>)"
proof (cases "allowCustom tab \<and> n - 1 = int (length (options tab))")
  case True
  show ?thesis
  proof (cases "enterCustomMode (id_tab tab) s")
    case (Inl e)
    with n p True show ?thesis
      by (simp add: quickSelect_def selectAtCursor_def Let_def enterCustomMode_cursor)
  next
    case (Inr s1)
    with n p True enterCustomMode_frameD[OF Inr] show ?thesis
      by (simp add: quickSelect_def selectAtCursor_def Let_def enterCustomMode_cursor
            requestRender_def invalidate_def)
  qed
next
  case False
  with n have "0 \<le> n - 1 \<and> n - 1 < int (length (options tab))"
    by (auto simp: optionCount_def split: if_splits)
  then obtain opt where opt: "nth_opt (options tab) (n - 1) = Some opt"
    by (auto simp: nth_opt_def)
  show ?thesis
  proof (cases "applyOption tab opt s")
    case (Inl e)
    with n p False opt show ?thesis
      by (auto simp add: quickSelect_def selectAtCursor_def Let_def applyOption_cursor)
  next
    case (Inr s1)
    with n p False opt applyOption_frameD[OF Inr] show ?thesis
      by (auto simp add: quickSelect_def selectAtCursor_def Let_def applyOption_cursor
            requestRender_def invalidate_def)
  qed
qed

lemma quickSelect_ignored:
  "parseInt data = Some n \<Longrightarrow> optionCount tab < n \<Longrightarrow> quickSelect tab data s = Inr s"
  by (simp add: quickSelect_def)

text \<open>
  Claim C7. On a tab that is not capturing free text, a digit key \<open>d\<close> from 1 to 9 (a
  token that matches no named key) does, when \<open>d \<le> optionCount\<close>, what Enter or Space
  does once the cursor of the tab is on slot \<open>d - 1\<close>, and the cursor is on that slot
  afterwards; when \<open>d > optionCount\<close> it changes nothing.
\<close>

theorem quick_select_same_as_enter:
  assumes cur: "nth_opt (tabs s) (currentTabIndex s) = Some tab"
    and browsing: "customInputMode s (id_tab tab) \<noteq> Some True"
    and d: "1 \<le> d" "d \<le> 9"
    and digit: "\<forall>k. \<not> matchesKey h [0x30 + d] k"
    and enter: "matchesKey h e Enter \<or> matchesKey h e Space"
    and other: "\<not> matchesKey h e Escape" "\<not> matchesKey h e Tab" "\<not> matchesKey h e Right"
      "\<not> matchesKey h e ShiftTab" "\<not> matchesKey h e Left" "\<not> matchesKey h e Up"
      "\<not> matchesKey h e Down"
  shows "handleInput h [0x30 + d] s =
           (if int d \<le> optionCount tab
            then handleInput h e (s\<lparr>optionCursor := (optionCursor s)(id_tab tab \<mapsto> int d - 1)\<rparr>)
            else Inr s)
         \<and> holds (handleInput h [0x30 + d] s)
              (\<lambda>s'. optionCursor s' (id_tab tab) =
                      (if int d \<le> optionCount tab then Some (int d - 1)
                       else optionCursor s (id_tab tab)))"
proof -
  let ?s2 = "s\<lparr>optionCursor := (optionCursor s)(id_tab tab \<mapsto> int d - 1)\<rparr>"
  have sub: "currentTabIndex s \<noteq> int (length (tabs s))"
    using nth_opt_bounds[OF cur] by simp
  have lhs: "handleInput h [0x30 + d] s = quickSelect tab [0x30 + d] s"
    using cur browsing digit sub by (simp add: handleInput_def Let_def)
  have rhs: "handleInput h e ?s2 = selectAtCursor tab (int d - 1) ?s2"
    using cur browsing enter other sub by (simp add: handleInput_def Let_def)
  have p: "parseInt [0x30 + d] = Some (int d)" using d by (rule parseInt_digit)
  show ?thesis
  proof (cases "int d \<le> optionCount tab")
    case True
    with d have n: "1 \<le> int d" "int d \<le> optionCount tab" by simp_all
    have eq: "handleInput h [0x30 + d] s = handleInput h e ?s2"
      unfolding lhs rhs by (rule quickSelect_eq[OF n p])
    have "holds (selectAtCursor tab (int d - 1) ?s2) (\<lambda>s'. optionCursor s' = optionCursor ?s2)"
      by (rule holds_mono[OF selectAtCursor_frame]) simp
    then have "holds (handleInput h e ?s2) (\<lambda>s'. optionCursor s' (id_tab tab) = Some (int d - 1))"
      unfolding rhs by (rule holds_mono) simp
    with eq True show ?thesis by simp
  next
    case False
    then have "handleInput h [0x30 + d] s = Inr s"
      unfolding lhs using quickSelect_ignored[OF p, of tab s] by simp
    with False show ?thesis by simp
  qed
qed

theorem quick_select_same_as_enter_witness:
  "nth_opt (tabs (init ttyHost [colorTab, notesTab])) (currentTabIndex (init ttyHost [colorTab, notesTab]))
     = Some colorTab
   \<and> customInputMode (init ttyHost [colorTab, notesTab]) (id_tab colorTab) \<noteq> Some True
   \<and> (\<forall>k. \<not> matchesKey ttyHost [0x30 + 2] k)
   \<and> matchesKey ttyHost [0x0D] Enter
   \<and> handleInput ttyHost [0x30 + 2] (init ttyHost [colorTab, notesTab])
       = handleInput ttyHost [0x0D]
           ((init ttyHost [colorTab, notesTab])
              \<lparr>optionCursor := (optionCursor (init ttyHost [colorTab, notesTab]))(id_tab colorTab \<mapsto> 1)\<rparr>)"
proof -
  let ?s = "init ttyHost [colorTab, notesTab] :: jsstring form"
  have h1: "nth_opt (tabs ?s) (currentTabIndex ?s) = Some colorTab"
    by code_simp
  have h2: "customInputMode ?s (id_tab colorTab) \<noteq> Some True" by code_simp
  have h3: "\<forall>k. \<not> matchesKey ttyHost [0x30 + 2] k"
  proof
    fix k show "\<not> matchesKey ttyHost [0x30 + 2] k"
      by (cases k) (simp_all add: ttyHost_def ttyKey_def)
  qed
  have h4: "matchesKey ttyHost [0x0D] Enter \<or> matchesKey ttyHost [0x0D] Space"
    by (simp add: ttyHost_def ttyKey_def)
  have h5: "\<not> matchesKey ttyHost [0x0D] Escape" "\<not> matchesKey ttyHost [0x0D] Tab"
    "\<not> matchesKey ttyHost [0x0D] Right" "\<not> matchesKey ttyHost [0x0D] ShiftTab"
    "\<not> matchesKey ttyHost [0x0D] Left" "\<not> matchesKey ttyHost [0x0D] Up"
    "\<not> matchesKey ttyHost [0x0D] Down"
    by (simp_all add: ttyHost_def ttyKey_def)
  have h6: "int 2 \<le> optionCount colorTab" by (simp add: optionCount_def colorTab_def)
  have h7: "matchesKey ttyHost [0x0D] Enter" by (simp add: ttyHost_def ttyKey_def)
  from quick_select_same_as_enter [of ?s colorTab 2 ttyHost "[0x0D]", OF h1 h2 _ _ h3 h4 h5] h6
  have "handleInput ttyHost [0x30 + 2] ?s
        = handleInput ttyHost [0x0D] (?s\<lparr>optionCursor := (optionCursor ?s)(id_tab colorTab \<mapsto> 1)\<rparr>)"
    by simp
  with h1 h2 h3 h7 show ?thesis by (intro conjI)
qed

subsection \<open>The text of the input components\<close>

lemma sameBuffers_refl [simp]: "sameBuffers s s"
  by (simp add: sameBuffers_def)

lemma sameBuffers_D:
  assumes "sameBuffers s s'" and "customInputs s k = Some inp"
  shows "map_option buffer (customInputs s' k) = Some (buffer inp)"
proof -
  from assms(1) have "map_option buffer (customInputs s' k) = map_option buffer (customInputs s k)"
    unfolding sameBuffers_def by (rule spec)
  also from assms(2) have "\<dots> = Some (buffer inp)" by simp
  finally show ?thesis .
qed

lemma requestRender_buffers [simp]: "sameBuffers s (requestRender s') = sameBuffers s s'"
  by (simp add: sameBuffers_def requestRender_def)

lemma invalidate_buffers [simp]: "sameBuffers s (invalidate s') = sameBuffers s s'"
  by (simp add: sameBuffers_def invalidate_def)

lemma cursor_buffers [simp]: "sameBuffers s (s'\<lparr>optionCursor := m\<rparr>) = sameBuffers s s'"
  by (simp add: sameBuffers_def)

lemma enterCustomMode_buffers: "holds (enterCustomMode k s) (sameBuffers s)"
  by (simp add: enterCustomMode_def Let_def sameBuffers_def split: option.splits)

lemma applyOption_buffers: "holds (applyOption tab opt s) (sameBuffers s)"
  by (simp add: applyOption_def Let_def sameBuffers_def split: option.splits)

lemma selectAtCursor_buffers: "holds (selectAtCursor tab c s) (sameBuffers s)"
  by (simp add: selectAtCursor_def enterCustomMode_buffers applyOption_buffers
        split: option.splits)

lemma quickSelect_buffers: "holds (quickSelect tab data s) (sameBuffers s)"
  by (simp add: quickSelect_def Let_def enterCustomMode_buffers applyOption_buffers
        split: option.splits)

lemma setFocused_buffers: "sameBuffers s (setFocused v s)"
  by (simp add: setFocused_def Let_def sameBuffers_def split: option.splits)

lemma handleInput_buffers:
  assumes inp: "customInputs s k = Some inp"
  shows "holds (handleInput h data s)
           (\<lambda>s'. map_option buffer (customInputs s' k) =
                   Some (case typedInto h (HandleInput data) s k of
                           None \<Rightarrow> buffer inp
                         | Some d \<Rightarrow> inputHandle h d (buffer inp)))"
proof (cases "nth_opt (tabs s) (currentTabIndex s)")
  case None
  then show ?thesis using inp by (simp add: handleInput_def typedInto_def)
next
  case (Some tab)
  have sub: "currentTabIndex s \<noteq> int (length (tabs s))"
    using nth_opt_bounds[OF Some] by simp
  show ?thesis
  proof (cases "customInputMode s (id_tab tab) = Some True")
    case True
    then have "handleInput h data s = customModeInput h data (id_tab tab) s"
      using Some sub by (simp add: handleInput_def Let_def)
    then show ?thesis
      using Some True inp
      by (auto simp: customModeInput_def typedInto_def Let_def requestRender_def invalidate_def
               split: option.splits)
  next
    case False
    then have t: "typedInto h (HandleInput data) s k = None"
      using Some by (auto simp: typedInto_def)
    define P where "P = (\<lambda>s' :: 'a form. map_option buffer (customInputs s' k) = Some (buffer inp))"
    have kept: "sameBuffers s s' \<Longrightarrow> P s'" for s'
      unfolding P_def by (rule sameBuffers_D[OF _ inp])
    have sel: "holds (selectAtCursor tab c s) P" for c
      by (rule holds_mono[OF selectAtCursor_buffers]) (rule kept)
    have qs: "holds (quickSelect tab data s) P"
      by (rule holds_mono[OF quickSelect_buffers]) (rule kept)
    have base: "P s" "P (doneCall r s)" "P (requestRender (invalidate (s\<lparr>currentTabIndex := i\<rparr>)))"
      "P (requestRender (invalidate (s\<lparr>optionCursor := m\<rparr>)))" for r i m
      using inp by (simp_all add: P_def doneCall_def requestRender_def invalidate_def)
    have "holds (handleInput h data s) P"
      using Some False
      by (simp add: handleInput_def Let_def sel qs base)
    then show ?thesis
      by (simp only: t option.case P_def)
  qed
qed

lemma step_buffers:
  assumes inp: "customInputs s k = Some inp"
  shows "holds (step h e s)
           (\<lambda>s'. map_option buffer (customInputs s' k) =
                   Some (case typedInto h e s k of
                           None \<Rightarrow> buffer inp
                         | Some d \<Rightarrow> inputHandle h d (buffer inp)))"
proof (cases e)
  case (HandleInput data)
  then show ?thesis using handleInput_buffers[OF inp, of h data] by (simp add: step_def)
next
  case (SetFocused v)
  then show ?thesis
    using sameBuffers_D[OF setFocused_buffers[of s v] inp] by (simp add: step_def typedInto_def)
next
  case (Render w)
  show ?thesis
  proof (cases "step h e s")
    case (Inl a)
    then show ?thesis by simp
  next
    case (Inr s')
    with step_render[of h w s s'] Render inp show ?thesis by (auto simp: typedInto_def)
  qed
qed (use inp in \<open>simp_all add: step_def abort_def doneCall_def invalidate_def typedInto_def\<close>)

text \<open>
  Claim C4, amended. The text of a tab's input component is what the constructor of the
  component gives, in a new form; one event changes it only when it is an input token other
  than Escape and Enter that arrives while the tab is current and captures free text, and
  then the component has received the token. When custom input mode is entered for a tab,
  by Enter or Space with the cursor on the custom entry or by the digit of the custom entry,
  the text is left as it was: only the focus flag of the component is set, nothing is taken
  from \<open>customText\<close>, and the responses do not change.
\<close>

theorem enter_custom_keeps_buffer:
  "(t \<in> set ts \<longrightarrow>
      customInputs (init h ts) (id_tab t) = Some \<lparr>buffer = inputNew h, focusedI = False\<rparr>)
   \<and> (step h e s = Inr s' \<and> customInputs s k = Some inp \<longrightarrow>
        map_option buffer (customInputs s' k) =
          Some (case typedInto h e s k of
                  None \<Rightarrow> buffer inp
                | Some d \<Rightarrow> inputHandle h d (buffer inp)))
   \<and> (nth_opt (tabs s) (currentTabIndex s) = Some tab
        \<and> customInputMode s (id_tab tab) \<noteq> Some True
        \<and> allowCustom tab
        \<and> customInputs s (id_tab tab) = Some inp
        \<and> (((matchesKey h data Enter \<or> matchesKey h data Space)
             \<and> \<not> matchesKey h data Escape \<and> \<not> matchesKey h data Tab \<and> \<not> matchesKey h data Right
             \<and> \<not> matchesKey h data ShiftTab \<and> \<not> matchesKey h data Left
             \<and> \<not> matchesKey h data Up \<and> \<not> matchesKey h data Down
             \<and> optionCursor s (id_tab tab) = Some (int (length (options tab))))
            \<or> ((\<forall>k. \<not> matchesKey h data k)
                \<and> parseInt data = Some (int (length (options tab)) + 1)))
      \<longrightarrow> (\<exists>s2. handleInput h data s = Inr s2
             \<and> customInputMode s2 (id_tab tab) = Some True
             \<and> customInputs s2 (id_tab tab) = Some (inp\<lparr>focusedI := focused s\<rparr>)
             \<and> responses s2 = responses s))"
proof (intro conjI impI)
  assume "t \<in> set ts"
  then show "customInputs (init h ts) (id_tab t) = Some \<lparr>buffer = inputNew h, focusedI = False\<rparr>"
    by (simp add: init_def init_fold_customInputs)
next
  assume a: "step h e s = Inr s' \<and> customInputs s k = Some inp"
  then have "customInputs s k = Some inp" by (rule conjunct2)
  from step_buffers[OF this, of h e] a
  show "map_option buffer (customInputs s' k) =
          Some (case typedInto h e s k of
                  None \<Rightarrow> buffer inp
                | Some d \<Rightarrow> inputHandle h d (buffer inp))"
    by simp
next
  assume a: "nth_opt (tabs s) (currentTabIndex s) = Some tab
        \<and> customInputMode s (id_tab tab) \<noteq> Some True
        \<and> allowCustom tab
        \<and> customInputs s (id_tab tab) = Some inp
        \<and> (((matchesKey h data Enter \<or> matchesKey h data Space)
             \<and> \<not> matchesKey h data Escape \<and> \<not> matchesKey h data Tab \<and> \<not> matchesKey h data Right
             \<and> \<not> matchesKey h data ShiftTab \<and> \<not> matchesKey h data Left
             \<and> \<not> matchesKey h data Up \<and> \<not> matchesKey h data Down
             \<and> optionCursor s (id_tab tab) = Some (int (length (options tab))))
            \<or> ((\<forall>k. \<not> matchesKey h data k)
                \<and> parseInt data = Some (int (length (options tab)) + 1)))"
  then have cur: "nth_opt (tabs s) (currentTabIndex s) = Some tab"
    and browsing: "customInputMode s (id_tab tab) \<noteq> Some True"
    and custom: "allowCustom tab"
    and inp: "customInputs s (id_tab tab) = Some inp"
    and key: "((matchesKey h data Enter \<or> matchesKey h data Space)
             \<and> \<not> matchesKey h data Escape \<and> \<not> matchesKey h data Tab \<and> \<not> matchesKey h data Right
             \<and> \<not> matchesKey h data ShiftTab \<and> \<not> matchesKey h data Left
             \<and> \<not> matchesKey h data Up \<and> \<not> matchesKey h data Down
             \<and> optionCursor s (id_tab tab) = Some (int (length (options tab))))
            \<or> ((\<forall>k. \<not> matchesKey h data k)
                \<and> parseInt data = Some (int (length (options tab)) + 1))"
    by blast+
  have sub: "currentTabIndex s \<noteq> int (length (tabs s))"
    using nth_opt_bounds[OF cur] by simp
  have ecm: "enterCustomMode (id_tab tab) s =
               Inr (s\<lparr>customInputMode := (customInputMode s)(id_tab tab \<mapsto> True),
                      customInputs := (customInputs s)(id_tab tab \<mapsto> inp\<lparr>focusedI := focused s\<rparr>)\<rparr>)"
    using inp by (simp add: enterCustomMode_def Let_def)
  from key show "\<exists>s2. handleInput h data s = Inr s2
             \<and> customInputMode s2 (id_tab tab) = Some True
             \<and> customInputs s2 (id_tab tab) = Some (inp\<lparr>focusedI := focused s\<rparr>)
             \<and> responses s2 = responses s"
  proof
    assume k: "(matchesKey h data Enter \<or> matchesKey h data Space)
        \<and> \<not> matchesKey h data Escape \<and> \<not> matchesKey h data Tab \<and> \<not> matchesKey h data Right
        \<and> \<not> matchesKey h data ShiftTab \<and> \<not> matchesKey h data Left
        \<and> \<not> matchesKey h data Up \<and> \<not> matchesKey h data Down
        \<and> optionCursor s (id_tab tab) = Some (int (length (options tab)))"
    then have "handleInput h data s = selectAtCursor tab (int (length (options tab))) s"
      using cur browsing sub by (simp add: handleInput_def Let_def)
    then show ?thesis
      using custom ecm by (simp add: selectAtCursor_def requestRender_def invalidate_def)
  next
    assume k: "(\<forall>k. \<not> matchesKey h data k)
           \<and> parseInt data = Some (int (length (options tab)) + 1)"
    then have "handleInput h data s = quickSelect tab data s"
      using cur browsing sub by (simp add: handleInput_def Let_def)
    then show ?thesis
      using custom ecm k
      by (simp add: quickSelect_def Let_def optionCount_def requestRender_def invalidate_def)
  qed
qed


theorem enter_custom_keeps_buffer_witness:
  "customInputs (init ttyHost [notesTab]) (js ''Notes'') = Some \<lparr>buffer = [], focusedI = False\<rparr>
   \<and> (\<exists>s s'. run ttyHost typedKeys (init ttyHost [notesTab]) = Inr s
         \<and> customInputs s (js ''Notes'') = Some \<lparr>buffer = js ''x'', focusedI = False\<rparr>
         \<and> step ttyHost (HandleInput (js ''y'')) s = Inr s'
         \<and> map_option buffer (customInputs s' (js ''Notes'')) = Some (js ''xy''))
   \<and> (\<exists>s s'. run ttyHost abandonedKeys (init ttyHost [notesTab]) = Inr s
         \<and> customInputMode s (js ''Notes'') = Some False
         \<and> customInputs s (js ''Notes'') = Some \<lparr>buffer = js ''x'', focusedI = False\<rparr>
         \<and> handleInput ttyHost [0x0D] s = Inr s'
         \<and> customInputMode s' (js ''Notes'') = Some True
         \<and> customInputs s' (js ''Notes'') = Some \<lparr>buffer = js ''x'', focusedI = False\<rparr>)"
proof (intro conjI)
  have "notesTab \<in> set [notesTab]" by simp
  from enter_custom_keeps_buffer
         [where h = ttyHost and t = notesTab and ts = "[notesTab]",
          THEN conjunct1, THEN mp, OF this]
  show "customInputs (init ttyHost [notesTab]) (js ''Notes'') = Some \<lparr>buffer = [], focusedI = False\<rparr>"
    by (simp add: notesTab_def ttyHost_def)
next
  let ?R = "run ttyHost typedKeys (init ttyHost [notesTab])"
  let ?E = "step ttyHost (HandleInput (js ''y'')) (projr ?R)"
  have "\<not> isl ?R" by code_simp
  then obtain s where s: "?R = Inr s" by (cases ?R) simp_all
  have "customInputs (projr ?R) (js ''Notes'') = Some \<lparr>buffer = js ''x'', focusedI = False\<rparr>"
    by code_simp
  then have inp: "customInputs s (js ''Notes'') = Some \<lparr>buffer = js ''x'', focusedI = False\<rparr>"
    by (simp only: s sum.sel)
  have "\<not> isl ?E" by code_simp
  then have "\<not> isl (step ttyHost (HandleInput (js ''y'')) s)" by (simp add: s)
  then obtain s' where s': "step ttyHost (HandleInput (js ''y'')) s = Inr s'"
    by (cases "step ttyHost (HandleInput (js ''y'')) s") simp_all
  have "typedInto ttyHost (HandleInput (js ''y'')) (projr ?R) (js ''Notes'') = Some (js ''y'')"
    by code_simp
  then have ty: "typedInto ttyHost (HandleInput (js ''y'')) s (js ''Notes'') = Some (js ''y'')"
    by (simp only: s sum.sel)
  have prem: "step ttyHost (HandleInput (js ''y'')) s = Inr s'
        \<and> customInputs s (js ''Notes'') = Some \<lparr>buffer = js ''x'', focusedI = False\<rparr>"
    using s' inp by (intro conjI)
  from enter_custom_keeps_buffer
         [where h = ttyHost and e = "HandleInput (js ''y'')" and s = s and s' = s'
            and k = "js ''Notes''" and inp = "\<lparr>buffer = js ''x'', focusedI = False\<rparr>",
          THEN conjunct2, THEN conjunct1, THEN mp, OF prem]
  have "map_option buffer (customInputs s' (js ''Notes''))
          = Some (inputHandle ttyHost (js ''y'') (buffer \<lparr>buffer = js ''x'', focusedI = False\<rparr>))"
    by (simp only: ty option.case)
  moreover have "inputHandle ttyHost (js ''y'') (buffer \<lparr>buffer = js ''x'', focusedI = False\<rparr>)
          = js ''xy''"
    by (simp add: ttyHost_def js_def)
  ultimately have "map_option buffer (customInputs s' (js ''Notes'')) = Some (js ''xy'')"
    by (simp only:)
  with s inp s' show "\<exists>s s'. ?R = Inr s
         \<and> customInputs s (js ''Notes'') = Some \<lparr>buffer = js ''x'', focusedI = False\<rparr>
         \<and> step ttyHost (HandleInput (js ''y'')) s = Inr s'
         \<and> map_option buffer (customInputs s' (js ''Notes'')) = Some (js ''xy'')"
    by (intro exI conjI)
next
  let ?R = "run ttyHost abandonedKeys (init ttyHost [notesTab])"
  have k: "matchesKey ttyHost [0x0D] Enter" "\<not> matchesKey ttyHost [0x0D] Escape"
    "\<not> matchesKey ttyHost [0x0D] Tab" "\<not> matchesKey ttyHost [0x0D] Right"
    "\<not> matchesKey ttyHost [0x0D] ShiftTab" "\<not> matchesKey ttyHost [0x0D] Left"
    "\<not> matchesKey ttyHost [0x0D] Up" "\<not> matchesKey ttyHost [0x0D] Down"
    by (simp_all add: ttyHost_def ttyKey_def)
  have idt: "id_tab notesTab = js ''Notes''" by (simp add: notesTab_def)
  have "\<not> isl ?R" by code_simp
  then obtain s where s: "?R = Inr s" by (cases ?R) simp_all
  have "nth_opt (tabs (projr ?R)) (currentTabIndex (projr ?R)) = Some notesTab" by code_simp
  then have cur: "nth_opt (tabs s) (currentTabIndex s) = Some notesTab" by (simp only: s sum.sel)
  have "customInputMode (projr ?R) (js ''Notes'') = Some False" by code_simp
  then have mode: "customInputMode s (js ''Notes'') = Some False" by (simp only: s sum.sel)
  have custom: "allowCustom notesTab" by (simp add: notesTab_def)
  have "customInputs (projr ?R) (js ''Notes'') = Some \<lparr>buffer = js ''x'', focusedI = False\<rparr>"
    by code_simp
  then have inp: "customInputs s (js ''Notes'') = Some \<lparr>buffer = js ''x'', focusedI = False\<rparr>"
    by (simp only: s sum.sel)
  have "optionCursor (projr ?R) (id_tab notesTab) = Some (int (length (options notesTab)))"
    by code_simp
  then have c: "optionCursor s (id_tab notesTab) = Some (int (length (options notesTab)))"
    by (simp only: s sum.sel)
  have "focused (projr ?R) = False" by code_simp
  then have f: "focused s = False" by (simp only: s sum.sel)
  have prem: "nth_opt (tabs s) (currentTabIndex s) = Some notesTab
        \<and> customInputMode s (id_tab notesTab) \<noteq> Some True
        \<and> allowCustom notesTab
        \<and> customInputs s (id_tab notesTab) = Some \<lparr>buffer = js ''x'', focusedI = False\<rparr>
        \<and> (((matchesKey ttyHost [0x0D] Enter \<or> matchesKey ttyHost [0x0D] Space)
             \<and> \<not> matchesKey ttyHost [0x0D] Escape \<and> \<not> matchesKey ttyHost [0x0D] Tab
             \<and> \<not> matchesKey ttyHost [0x0D] Right
             \<and> \<not> matchesKey ttyHost [0x0D] ShiftTab \<and> \<not> matchesKey ttyHost [0x0D] Left
             \<and> \<not> matchesKey ttyHost [0x0D] Up \<and> \<not> matchesKey ttyHost [0x0D] Down
             \<and> optionCursor s (id_tab notesTab) = Some (int (length (options notesTab))))
            \<or> ((\<forall>k. \<not> matchesKey ttyHost [0x0D] k)
                \<and> parseInt [0x0D] = Some (int (length (options notesTab)) + 1)))"
    using cur mode custom inp k c by (simp add: idt)
  from enter_custom_keeps_buffer
         [where h = ttyHost and s = s and tab = notesTab and data = "[0x0D]"
            and inp = "\<lparr>buffer = js ''x'', focusedI = False\<rparr>",
          THEN conjunct2, THEN conjunct2, THEN mp, OF prem]
  obtain s2 where s2: "handleInput ttyHost [0x0D] s = Inr s2"
    "customInputMode s2 (id_tab notesTab) = Some True"
    "customInputs s2 (id_tab notesTab)
       = Some (\<lparr>buffer = js ''x'', focusedI = False\<rparr>\<lparr>focusedI := focused s\<rparr>)"
    by blast
  from s2(3) f have "customInputs s2 (js ''Notes'') = Some \<lparr>buffer = js ''x'', focusedI = False\<rparr>"
    by (simp add: idt)
  with s mode inp s2(1) s2(2)
  show "\<exists>s s'. ?R = Inr s
         \<and> customInputMode s (js ''Notes'') = Some False
         \<and> customInputs s (js ''Notes'') = Some \<lparr>buffer = js ''x'', focusedI = False\<rparr>
         \<and> handleInput ttyHost [0x0D] s = Inr s'
         \<and> customInputMode s' (js ''Notes'') = Some True
         \<and> customInputs s' (js ''Notes'') = Some \<lparr>buffer = js ''x'', focusedI = False\<rparr>"
    by (simp add: idt)
qed

text \<open>After Down, Down, Enter, the text \<open>x\<close>, Escape and Enter on the tab Notes, the form
  is in custom input mode again, the input component holds the text \<open>x\<close> that was
  abandoned with Escape, and \<open>customText\<close> is undefined.\<close>

theorem custom_buffer_not_seeded_counterexample:
  "\<not> isl (run ttyHost reenterKeys (init ttyHost [notesTab]))
   \<and> customInputMode (projr (run ttyHost reenterKeys (init ttyHost [notesTab]))) (id_tab notesTab)
       = Some True
   \<and> map_option buffer
        (customInputs (projr (run ttyHost reenterKeys (init ttyHost [notesTab]))) (id_tab notesTab))
       = Some (js ''x'')
   \<and> map_option customText
        (responses (projr (run ttyHost reenterKeys (init ttyHost [notesTab]))) (id_tab notesTab))
       = Some None"
  by code_simp

subsection \<open>Enter in custom input mode\<close>

text \<open>
  Claim C9. On the tab Notes, the digit 3 of the custom entry puts the form in custom input
  mode; the token Enter then raises a \<open>TypeError\<close>: \<open>handleInput\<close> calls the method
  \<open>getText\<close> of the input component (line 110), which the component does not have.
\<close>

theorem handleInput_raises_on_custom_enter:
  "\<exists>s. run ttyHost [HandleInput (js ''3'')] (init ttyHost [notesTab]) = Inr s
       \<and> customInputMode s (js ''Notes'') = Some True
       \<and> handleInput ttyHost [0x0D] s = Inl TypeError"
proof -
  let ?R = "run ttyHost [HandleInput (js ''3'')] (init ttyHost [notesTab])"
  have "\<not> isl ?R" by code_simp
  then obtain s where s: "?R = Inr s" by (cases ?R) simp_all
  have "nth_opt (tabs (projr ?R)) (currentTabIndex (projr ?R)) = Some notesTab" by code_simp
  then have cur: "nth_opt (tabs s) (currentTabIndex s) = Some notesTab" by (simp only: s sum.sel)
  have "customInputMode (projr ?R) (id_tab notesTab) = Some True" by code_simp
  then have mode: "customInputMode s (id_tab notesTab) = Some True" by (simp only: s sum.sel)
  have "handleInput ttyHost [0x0D] s = Inl TypeError"
    using cur mode by (rule custom_enter_raises) (simp_all add: ttyHost_def ttyKey_def)
  with s mode show ?thesis by (simp add: notesTab_def)
qed

text \<open>
  Claim C10. On the tab Notes: Enter (a), Down, Down, Enter on the custom entry, two
  spaces. The form is in custom input mode and the trimmed text of the buffer is empty;
  the token Enter raises the \<open>TypeError\<close> of line 110, before the assignment of line 117:
  custom input mode is not left.
\<close>

theorem blank_text_enter_raises:
  "\<exists>s. run ttyHost blankKeys (init ttyHost [notesTab]) = Inr s
       \<and> customInputMode s (js ''Notes'') = Some True
       \<and> map_option (\<lambda>i. trim (buffer i)) (customInputs s (js ''Notes'')) = Some []
       \<and> responses s (js ''Notes'') = Some \<lparr>selected = [js ''a''], customText = None\<rparr>
       \<and> handleInput ttyHost [0x0D] s = Inl TypeError"
proof -
  let ?R = "run ttyHost blankKeys (init ttyHost [notesTab])"
  have "\<not> isl ?R" by code_simp
  then obtain s where s: "?R = Inr s" by (cases ?R) simp_all
  have "nth_opt (tabs (projr ?R)) (currentTabIndex (projr ?R)) = Some notesTab" by code_simp
  then have cur: "nth_opt (tabs s) (currentTabIndex s) = Some notesTab" by (simp only: s sum.sel)
  have "customInputMode (projr ?R) (id_tab notesTab) = Some True" by code_simp
  then have mode: "customInputMode s (id_tab notesTab) = Some True" by (simp only: s sum.sel)
  have "map_option (\<lambda>i. trim (buffer i)) (customInputs (projr ?R) (js ''Notes'')) = Some []"
    by code_simp
  then have buf: "map_option (\<lambda>i. trim (buffer i)) (customInputs s (js ''Notes'')) = Some []"
    by (simp only: s sum.sel)
  have "responses (projr ?R) (js ''Notes'') = Some \<lparr>selected = [js ''a''], customText = None\<rparr>"
    by code_simp
  then have r: "responses s (js ''Notes'') = Some \<lparr>selected = [js ''a''], customText = None\<rparr>"
    by (simp only: s sum.sel)
  have "handleInput ttyHost [0x0D] s = Inl TypeError"
    using cur mode by (rule custom_enter_raises) (simp_all add: ttyHost_def ttyKey_def)
  with s mode buf r show ?thesis by (simp add: notesTab_def del: map_option_eq_Some)
qed

subsection \<open>The summary view\<close>

text \<open>
  Claim C1. The scenario of the specification, on the two tabs Color and Notes: Enter
  (red), Tab, Enter (a), Down, Enter (b), Tab, Enter. The responses are as expected and the
  form is on the summary, but the last Enter does not reach the completion callback:
  \<open>handleInput\<close> returns at once when no tab is current.
\<close>

theorem summary_enter_never_submits:
  "doneLog (projr (run ttyHost scenarioKeys (init ttyHost [colorTab, notesTab]))) = []
   \<and> currentTabIndex (projr (run ttyHost scenarioKeys (init ttyHost [colorTab, notesTab]))) = 2
   \<and> responses (projr (run ttyHost scenarioKeys (init ttyHost [colorTab, notesTab]))) (js ''Color'')
       = Some \<lparr>selected = [js ''red''], customText = None\<rparr>
   \<and> responses (projr (run ttyHost scenarioKeys (init ttyHost [colorTab, notesTab]))) (js ''Notes'')
       = Some \<lparr>selected = [js ''a'', js ''b''], customText = None\<rparr>"
  by code_simp

text \<open>
  Claim C3. A form without tabs is on the summary from its construction; no input token
  changes it, and none reaches the completion callback.
\<close>

theorem zero_tab_form_ignores_input:
  "currentTabIndex (init h []) = int (length (tabs (init h [])))
   \<and> handleInput h data (init h []) = Inr (init h [])
   \<and> doneLog (init h []) = []"
  by (simp add: init_def handleInput_def nth_opt_def)

end
